theory Spec2Isabelle
  imports Main "HOL-Library.Word" "HOL-Library.Sublist" "HOL-Library.AList"
    "HOL-Library.Option_ord"
begin

section \<open>JavaScript strings\<close>

text \<open>
  A JavaScript string is a sequence of UTF-16 code units; \<open>length\<close>, \<open>slice\<close>,
  \<open>includes\<close>, \<open>trim\<close> and regular expressions without the \<open>u\<close> flag all
  work on code units. \<open>js\<close> embeds an ASCII literal.
\<close>

type_synonym cu = "16 word"
type_synonym jstr = "cu list"

definition js :: "string \<Rightarrow> jstr" where
  "js s = map of_char s"

text \<open>
  The code units removed by \<open>trim\<close>, \<open>trimStart\<close> and \<open>trimEnd\<close>: the
  WhiteSpace and LineTerminator productions of ECMAScript.
\<close>

definition is_ws :: "cu \<Rightarrow> bool" where
  "is_ws c \<longleftrightarrow>
     c = 0x09 \<or> c = 0x0A \<or> c = 0x0B \<or> c = 0x0C \<or> c = 0x0D \<or> c = 0x20 \<or>
     c = 0xA0 \<or> c = 0x1680 \<or> (0x2000 \<le> c \<and> c \<le> 0x200A) \<or>
     c = 0x2028 \<or> c = 0x2029 \<or> c = 0x202F \<or> c = 0x205F \<or> c = 0x3000 \<or>
     c = 0xFEFF"

definition trimStart :: "jstr \<Rightarrow> jstr" where
  "trimStart s = dropWhile is_ws s"

definition trimEnd :: "jstr \<Rightarrow> jstr" where
  "trimEnd s = rev (dropWhile is_ws (rev s))"

definition trim :: "jstr \<Rightarrow> jstr" where
  "trim s = trimEnd (trimStart s)"

text \<open>
  \<open>split_first needle hay\<close> cuts \<open>hay\<close> at the first (leftmost) occurrence of
  \<open>needle\<close>: the text before it and the text after it. \<open>None\<close> when there is none.
  It is what \<open>indexOf\<close> finds.
\<close>

fun split_first :: "'a list \<Rightarrow> 'a list \<Rightarrow> ('a list \<times> 'a list) option" where
  "split_first needle [] = (if needle = [] then Some ([], []) else None)"
| "split_first needle (x # xs) =
     (if prefix needle (x # xs) then Some ([], drop (length needle) (x # xs))
      else map_option (\<lambda>(a, b). (x # a, b)) (split_first needle xs))"

definition js_includes :: "'a list \<Rightarrow> 'a list \<Rightarrow> bool" where
  "js_includes hay needle \<longleftrightarrow> split_first needle hay \<noteq> None"

section \<open>Replacement patterns of \<open>String.prototype.replace\<close>\<close>

text \<open>
  \<open>text.replace(pattern, replacement)\<close> with a string \<open>replacement\<close> does not insert
  it verbatim: it expands the patterns \<open>$$\<close>, \<open>$&\<close>, \<open>$`\<close>, \<open>$'\<close>, \<open>$n\<close>
  and \<open>$nn\<close> (abstract operation GetSubstitution). \<open>caps\<close> are the capture groups,
  \<open>matched\<close> the whole match, \<open>pre\<close> and \<open>post\<close> the text before and after it. The
  pattern of this program has no named groups, so \<open>$<\<close> is literal.
\<close>

definition is_digit :: "cu \<Rightarrow> bool" where
  "is_digit c \<longleftrightarrow> 0x30 \<le> c \<and> c \<le> 0x39"

definition digit_val :: "cu \<Rightarrow> nat" where
  "digit_val c = unat c - 0x30"

definition capture :: "jstr list \<Rightarrow> nat \<Rightarrow> jstr option" where
  "capture caps n = (if 1 \<le> n \<and> n \<le> length caps then Some (caps ! (n - 1)) else None)"

fun get_substitution :: "jstr list \<Rightarrow> jstr \<Rightarrow> jstr \<Rightarrow> jstr \<Rightarrow> jstr \<Rightarrow> jstr" where
  "get_substitution caps matched pre post [] = []"
| "get_substitution caps matched pre post [c] = [c]"
| "get_substitution caps matched pre post (c # d # t) =
     (if c \<noteq> 0x24 then c # get_substitution caps matched pre post (d # t)
      else if d = 0x24 then 0x24 # get_substitution caps matched pre post t
      else if d = 0x26 then matched @ get_substitution caps matched pre post t
      else if d = 0x60 then pre @ get_substitution caps matched pre post t
      else if d = 0x27 then post @ get_substitution caps matched pre post t
      else if is_digit d then
        (case t of
           e # t' \<Rightarrow>
             (if is_digit e \<and> 10 * digit_val d + digit_val e \<le> length caps then
                (case capture caps (10 * digit_val d + digit_val e) of
                   Some g \<Rightarrow> g @ get_substitution caps matched pre post t'
                 | None \<Rightarrow> c # d # e # get_substitution caps matched pre post t')
              else
                (case capture caps (digit_val d) of
                   Some g \<Rightarrow> g @ get_substitution caps matched pre post t
                 | None \<Rightarrow> c # d # get_substitution caps matched pre post t))
         | [] \<Rightarrow>
             (case capture caps (digit_val d) of
                Some g \<Rightarrow> g
              | None \<Rightarrow> [c, d]))
      else c # get_substitution caps matched pre post (d # t))"

section \<open>The document injector\<close>

definition MARKER_START :: jstr where
  "MARKER_START = js ''<!-- ideas:start -->''"

definition MARKER_END :: jstr where
  "MARKER_END = js ''<!-- ideas:end -->''"

text \<open>\<open>escapeRegExp\<close> puts a backslash before each of \<open>. * + ? ^ $ { } ( ) | [ ] \\<close>.\<close>

definition is_regexp_special :: "cu \<Rightarrow> bool" where
  "is_regexp_special c \<longleftrightarrow>
     c = 0x2E \<or> c = 0x2A \<or> c = 0x2B \<or> c = 0x3F \<or> c = 0x5E \<or> c = 0x24 \<or>
     c = 0x7B \<or> c = 0x7D \<or> c = 0x28 \<or> c = 0x29 \<or> c = 0x7C \<or> c = 0x5B \<or>
     c = 0x5D \<or> c = 0x5C"

definition escapeRegExp :: "jstr \<Rightarrow> jstr" where
  "escapeRegExp s = concat (map (\<lambda>c. if is_regexp_special c then [0x5C, c] else [c]) s)"

text \<open>
  The pattern is \<open>(START)([\s\S]*?)(END)\<close> with both markers escaped, which leaves
  them as they are (lemma \<open>escapeRegExp_markers\<close>): three groups, the middle one lazy
  and matching any code unit. A match can begin only at an occurrence of the start
  marker and needs an end marker at or after the end of that occurrence. If some start
  marker has one, so has the leftmost; the regular expression therefore matches at the
  leftmost start marker and the lazy group stops at the first end marker after it, or
  nothing matches at all. \<open>match_markers\<close> returns the text before the match, the
  middle group and the text after the match.
\<close>

definition match_markers :: "jstr \<Rightarrow> (jstr \<times> jstr \<times> jstr) option" where
  "match_markers text =
     (case split_first MARKER_START text of
        None \<Rightarrow> None
      | Some (pre, rest) \<Rightarrow>
          (case split_first MARKER_END rest of
             None \<Rightarrow> None
           | Some (mid, post) \<Rightarrow> Some (pre, mid, post)))"

text \<open>\<open>text.replace(pattern, replacement)\<close> for that pattern (no \<open>g\<close> flag: first match only;
  no match: the text itself).\<close>

definition replace_markers :: "jstr \<Rightarrow> jstr \<Rightarrow> jstr" where
  "replace_markers text replacement =
     (case match_markers text of
        None \<Rightarrow> text
      | Some (pre, mid, post) \<Rightarrow>
          pre @
          get_substitution [MARKER_START, mid, MARKER_END]
            (MARKER_START @ mid @ MARKER_END) pre post replacement @
          post)"

definition UPDATED_NOTE :: jstr where
  "UPDATED_NOTE = js ''_Updated automatically on merge to `main`._''"

definition replaceBetweenMarkers :: "jstr \<Rightarrow> jstr \<Rightarrow> jstr" where
  "replaceBetweenMarkers readmeText newBlock =
     (if \<not> js_includes readmeText MARKER_START \<or> \<not> js_includes readmeText MARKER_END then
        trimEnd readmeText @
        js ''\<newline>\<newline>'' @ MARKER_START @ js ''\<newline>\<newline>'' @ UPDATED_NOTE @
        js ''\<newline>\<newline>'' @ newBlock @ js ''\<newline>'' @ MARKER_END @ js ''\<newline>''
      else
        replace_markers readmeText
          (js ''$1\<newline>\<newline>'' @ UPDATED_NOTE @ js ''\<newline>'' @ newBlock @ js ''$3''))"

section \<open>JSON values and the objects of the cache\<close>

text \<open>
  The values the cache holds are the values of JSON. An object is an association list
  in insertion order, read with \<open>map_of\<close> and written with \<open>AList.update\<close> (an
  existing key keeps its place, a new key goes last). An array carries, besides its
  elements, the properties set on it under names that are not indices: JavaScript keeps
  them in memory and \<open>JSON.stringify\<close> drops them. Numbers are the integral ones; the
  program itself never writes a number into the cache and reads one only for its
  truthiness.

  The property names the program uses are \<open>attrs\<close>, \<open>meta\<close>, \<open>seen\<close>, \<open>login\<close>,
  \<open>html_url\<close>, \<open>avatar_url\<close>, \<open>__seen\<close>, \<open>__resolved_from\<close> and the paths
  of the record files, which come from the glob pattern and end in \<open>.xml\<close>. None of
  them is an array index, \<open>length\<close> or a name inherited from a prototype, so reading
  one from a string, number or boolean gives \<open>undefined\<close> and reading one from an
  object or array gives the own property.
\<close>

datatype jv =
    JNull
  | JBool bool
  | JNum int
  | JStr jstr
  | JArr "jv list" "(jstr \<times> jv) list"
  | JObj "(jstr \<times> jv) list"

datatype error = TypeError | RangeError

text \<open>\<open>None\<close> is \<open>undefined\<close>.\<close>

fun truthy :: "jv option \<Rightarrow> bool" where
  "truthy None = False"
| "truthy (Some JNull) = False"
| "truthy (Some (JBool b)) = b"
| "truthy (Some (JNum n)) = (n \<noteq> 0)"
| "truthy (Some (JStr s)) = (s \<noteq> [])"
| "truthy (Some (JArr es ps)) = True"
| "truthy (Some (JObj ps)) = True"

text \<open>\<open>a || b\<close>\<close>

definition or_else :: "jv option \<Rightarrow> jv \<Rightarrow> jv" where
  "or_else a b = (if truthy a then the a else b)"

text \<open>\<open>v[k]\<close> for a value that is neither \<open>null\<close> nor \<open>undefined\<close>; the program tests
  every receiver for truthiness before it reads from it.\<close>

fun get_prop :: "jv \<Rightarrow> jstr \<Rightarrow> jv option" where
  "get_prop (JObj ps) k = map_of ps k"
| "get_prop (JArr es ps) k = map_of ps k"
| "get_prop v k = None"

text \<open>\<open>v?.k\<close>\<close>

fun opt_chain :: "jv option \<Rightarrow> jstr \<Rightarrow> jv option" where
  "opt_chain None k = None"
| "opt_chain (Some JNull) k = None"
| "opt_chain (Some v) k = get_prop v k"

text \<open>\<open>v[k] = x\<close>. The script is an ES module, hence strict code: creating a property on
  a string, number or boolean throws a TypeError, as does any assignment on \<open>null\<close>.\<close>

fun set_prop :: "jv \<Rightarrow> jstr \<Rightarrow> jv \<Rightarrow> error + jv" where
  "set_prop (JObj ps) k x = Inr (JObj (AList.update k x ps))"
| "set_prop (JArr es ps) k x = Inr (JArr es (AList.update k x ps))"
| "set_prop v k x = Inl TypeError"

definition typeof_object :: "jv \<Rightarrow> bool" where
  "typeof_object v = (case v of JNull \<Rightarrow> True | JArr es ps \<Rightarrow> True | JObj ps \<Rightarrow> True | _ \<Rightarrow> False)"

text \<open>What \<open>JSON.parse\<close> reads back from what \<open>JSON.stringify\<close> wrote: the same value
  without the named properties of arrays.\<close>

fun json_of :: "jv \<Rightarrow> jv" where
  "json_of (JArr es ps) = JArr (map json_of es) []"
| "json_of (JObj ps) = JObj (map (\<lambda>(k, v). (k, json_of v)) ps)"
| "json_of v = v"

text \<open>The values \<open>JSON.parse\<close> can return.\<close>

fun is_json :: "jv \<Rightarrow> bool" where
  "is_json (JArr es ps) = (ps = [] \<and> list_all is_json es)"
| "is_json (JObj ps) = list_all (\<lambda>(k, v). is_json v) ps"
| "is_json v = True"

section \<open>The files\<close>

text \<open>
  The three files the program writes. \<open>README.md\<close> and \<open>README_backup.md\<close> hold
  text (\<open>None\<close>: the file does not exist). The cache file \<open>.idea_attribution.json\<close>
  is read only through \<open>JSON.parse(raw.trim())\<close> and written only through
  \<open>JSON.stringify(payload, null, 2) + "\n"\<close>, so its content is kept as what the
  reader makes of it: missing, empty after trimming, text that \<open>JSON.parse\<close> rejects,
  or the text of a JSON value. Failing reads and writes of the operating system are not
  modelled.
\<close>

datatype cache_file = NoFile | Blank | Malformed | Json jv

record fs =
  readme :: "jstr option"
  backup :: "jstr option"
  cache :: cache_file

definition EMPTY_META :: jv where
  "EMPTY_META = JObj [(js ''seen'', JObj []), (js ''lastRun'', JNull)]"

text \<open>\<open>loadCacheFile\<close> returns \<open>{ attrs, meta }\<close>, here a pair. The warning that a
  malformed file prints goes to standard error, which is not modelled.\<close>

definition loadCacheFile :: "fs \<Rightarrow> jv \<times> jv" where
  "loadCacheFile f =
     (case cache f of
        NoFile \<Rightarrow> (JObj [], EMPTY_META)
      | Blank \<Rightarrow> (JObj [], EMPTY_META)
      | Malformed \<Rightarrow> (JObj [], EMPTY_META)
      | Json parsed \<Rightarrow>
          (if truthy (Some parsed) \<and> typeof_object parsed \<and>
              (truthy (get_prop parsed (js ''attrs'')) \<or> truthy (get_prop parsed (js ''meta'')))
           then (or_else (get_prop parsed (js ''attrs'')) (JObj []),
                 or_else (get_prop parsed (js ''meta'')) EMPTY_META)
           else (parsed, EMPTY_META)))"

definition saveCacheFile :: "jv \<Rightarrow> jv \<Rightarrow> fs \<Rightarrow> fs" where
  "saveCacheFile attrs meta f =
     f\<lparr>cache := Json (json_of (JObj [(js ''attrs'', or_else (Some attrs) (JObj [])),
                                    (js ''meta'', or_else (Some meta) EMPTY_META)]))\<rparr>"

text \<open>The seen set as \<open>buildTable\<close> takes it from the metadata: \<open>meta?.seen || {}\<close>.\<close>

definition seen_of :: "jv \<Rightarrow> jv" where
  "seen_of meta = or_else (opt_chain (Some meta) (js ''seen'')) (JObj [])"

section \<open>Numbers and dates\<close>

definition digit_cu :: "int \<Rightarrow> cu" where
  "digit_cu n = word_of_int (0x30 + n)"

text \<open>The decimal text of an integer (\<open>String(n)\<close> for the integers JavaScript prints
  without an exponent). \<open>show_digits\<close> is for a number that is not negative.\<close>

function show_digits :: "int \<Rightarrow> jstr" where
  "show_digits n =
     (if n < 10 then [digit_cu n] else show_digits (n div 10) @ [digit_cu (n mod 10)])"
  by pat_completeness auto
termination
  by (relation "measure nat") auto

definition show_int :: "int \<Rightarrow> jstr" where
  "show_int i = (if i < 0 then 0x2D # show_digits (- i) else show_digits i)"

definition show_nat :: "nat \<Rightarrow> jstr" where
  "show_nat n = show_digits (int n)"

definition pad2 :: "int \<Rightarrow> jstr" where
  "pad2 n = [digit_cu (n div 10 mod 10), digit_cu (n mod 10)]"

definition pad3 :: "int \<Rightarrow> jstr" where
  "pad3 n = digit_cu (n div 100 mod 10) # pad2 n"

definition pad4 :: "int \<Rightarrow> jstr" where
  "pad4 n = digit_cu (n div 1000 mod 10) # pad3 n"

definition pad6 :: "int \<Rightarrow> jstr" where
  "pad6 n = digit_cu (n div 100000 mod 10) # digit_cu (n div 10000 mod 10) # pad4 n"

text \<open>
  A \<open>Date\<close> object holds a time value: milliseconds since 1970-01-01T00:00:00Z, or NaN
  (\<open>None\<close>), an Invalid Date. An Invalid Date is an object like any other, hence truthy.
\<close>

datatype jsdate = Date "int option"

fun getTime :: "jsdate \<Rightarrow> int option" where
  "getTime (Date t) = t"

text \<open>Days since the epoch of a civil date and back (proleptic Gregorian calendar).\<close>

definition days_from_civil :: "int \<Rightarrow> int \<Rightarrow> int \<Rightarrow> int" where
  "days_from_civil y m d =
     (let y' = (if m \<le> 2 then y - 1 else y);
          era = y' div 400;
          yoe = y' - era * 400;
          doy = (153 * (if m > 2 then m - 3 else m + 9) + 2) div 5 + d - 1;
          doe = yoe * 365 + yoe div 4 - yoe div 100 + doy
      in era * 146097 + doe - 719468)"

definition civil_from_days :: "int \<Rightarrow> int \<times> int \<times> int" where
  "civil_from_days z =
     (let z' = z + 719468;
          era = z' div 146097;
          doe = z' - era * 146097;
          yoe = (doe - doe div 1460 + doe div 36524 - doe div 146096) div 365;
          doy = doe - (365 * yoe + yoe div 4 - yoe div 100);
          mp = (5 * doy + 2) div 153;
          d = doy - (153 * mp + 2) div 5 + 1;
          m = (if mp < 10 then mp + 3 else mp - 9);
          y = yoe + era * 400
      in (if m \<le> 2 then y + 1 else y, m, d))"

definition is_leap :: "int \<Rightarrow> bool" where
  "is_leap y \<longleftrightarrow> y mod 4 = 0 \<and> (y mod 100 \<noteq> 0 \<or> y mod 400 = 0)"

definition days_in_month :: "int \<Rightarrow> int \<Rightarrow> int" where
  "days_in_month y m =
     (if m = 2 then (if is_leap y then 29 else 28)
      else if m = 4 \<or> m = 6 \<or> m = 9 \<or> m = 11 then 30 else 31)"

text \<open>\<open>TimeClip\<close>: a time value beyond 8.64e15 ms is NaN.\<close>

definition time_clip :: "int option \<Rightarrow> int option" where
  "time_clip t = (case t of None \<Rightarrow> None
                  | Some v \<Rightarrow> if \<bar>v\<bar> \<le> 8640000000000000 then Some v else None)"

text \<open>
  \<open>toISOString\<close> throws a RangeError on an Invalid Date. Otherwise the text is
  \<open>YYYY-MM-DDTHH:mm:ss.sssZ\<close>, the year with a sign and six digits outside 0..9999.
\<close>

definition toISOString :: "jsdate \<Rightarrow> error + jstr" where
  "toISOString dt =
     (case getTime dt of
        None \<Rightarrow> Inl RangeError
      | Some t \<Rightarrow>
          (let day = t div 86400000;
               ms = t mod 86400000;
               (y, m, d) = civil_from_days day;
               year = (if 0 \<le> y \<and> y \<le> 9999 then pad4 y
                       else (if y < 0 then 0x2D else 0x2B) # pad6 \<bar>y\<bar>)
           in Inr (year @ js ''-'' @ pad2 m @ js ''-'' @ pad2 d @ js ''T'' @
                   pad2 (ms div 3600000) @ js '':'' @ pad2 (ms div 60000 mod 60) @ js '':'' @
                   pad2 (ms div 1000 mod 60) @ js ''.'' @ pad3 (ms mod 1000) @ js ''Z'')))"

text \<open>
  \<open>Date.parse\<close>. The program builds its argument from a \<open>YYYY-MM-DD HH:MM:SS\<close> text,
  which gives the date-time format of ECMAScript, \<open>YYYY-MM-DDTHH:mm:ssZ\<close>. A text of
  that shape with a field out of bounds (month 13, day 45, hour 25) gives NaN. What any
  other text gives, and a day the month does not have (30 February), is left to the
  engine by the standard: \<open>fallback\<close> stands for the engine's choice.
\<close>

definition num2 :: "cu \<Rightarrow> cu \<Rightarrow> int" where
  "num2 a b = int (10 * digit_val a + digit_val b)"

fun iso_fields :: "jstr \<Rightarrow> (int \<times> int \<times> int \<times> int \<times> int \<times> int) option" where
  "iso_fields [y1, y2, y3, y4, s1, m1, m2, s2, d1, d2, t, h1, h2, c1, i1, i2, c2, e1, e2, z] =
     (if list_all is_digit [y1, y2, y3, y4, m1, m2, d1, d2, h1, h2, i1, i2, e1, e2] \<and>
         s1 = 0x2D \<and> s2 = 0x2D \<and> t = 0x54 \<and> c1 = 0x3A \<and> c2 = 0x3A \<and> z = 0x5A
      then Some (100 * num2 y1 y2 + num2 y3 y4, num2 m1 m2, num2 d1 d2,
                 num2 h1 h2, num2 i1 i2, num2 e1 e2)
      else None)"
| "iso_fields s = None"

definition Date_parse :: "(jstr \<Rightarrow> int option) \<Rightarrow> jstr \<Rightarrow> int option" where
  "Date_parse fallback s =
     (case iso_fields s of
        None \<Rightarrow> time_clip (fallback s)
      | Some (y, mo, d, h, mi, se) \<Rightarrow>
          (if mo < 1 \<or> 12 < mo \<or> d < 1 \<or> 31 < d \<or> 24 < h \<or> 59 < mi \<or> 59 < se \<or>
              (h = 24 \<and> (mi \<noteq> 0 \<or> se \<noteq> 0))
           then None
           else if days_in_month y mo < d then time_clip (fallback s)
           else Some (days_from_civil y mo d * 86400000 + h * 3600000 + mi * 60000 + se * 1000)))"

text \<open>\<open>new Date(s)\<close> for a string \<open>s\<close>: always an object.\<close>

definition new_Date :: "(jstr \<Rightarrow> int option) \<Rightarrow> jstr \<Rightarrow> jsdate" where
  "new_Date fallback s = Date (Date_parse fallback s)"

section \<open>The world outside the program\<close>

text \<open>
  What the parsed XML of a record file looks like to the program. \<open>parser.parse\<close> of
  fast-xml-parser returns a tree; the program looks at two places in it,
  \<open>root.record_update.x_snc_hack4good_0_hack4good_proposal\<close> and
  \<open>root.x_snc_hack4good_0_hack4good_proposal\<close>, and takes the first that is truthy
  (\<open>None\<close>: missing or falsy, as an empty tag is). The node found is an object with
  fields (\<open>XNode\<close>: each present, non-null field with its \<open>String(v)\<close>) or a truthy
  value that is not an object (\<open>XLeaf\<close>). A file that cannot be read or parsed throws.
\<close>

datatype xnode = XLeaf | XNode "(jstr \<times> jstr) list"

record xml_root =
  nested_node :: "xnode option"
  flat_node :: "xnode option"

datatype xml_read = ReadFails | Parsed xml_root

text \<open>What \<open>git log --diff-filter=A --format=%H -- path\<close> gives: \<open>spawnSync\<close> throws,
  exits with a status other than 0, or exits with 0 and an output.\<close>

datatype git_result = GitThrows | GitFailed | GitOk jstr

text \<open>The answers of the GitHub API. A user has a login, an avatar URL and a profile
  URL, each possibly missing. A pull request has its creation time (the time value of
  \<open>new Date(created_at)\<close>) and possibly a user.\<close>

record gh_user =
  u_login :: "jstr option"
  u_avatar_url :: "jstr option"
  u_html_url :: "jstr option"

record pull =
  pr_created :: "int option"
  pr_user :: "gh_user option"

datatype pulls_response = PullsError | PullsNoArray | PullsData "pull list"

datatype commit_response =
    CommitError
  | CommitData "gh_user option" "jstr option" "jstr option"

record contributor =
  c_login :: jstr
  c_avatar_url :: jstr
  c_html_url :: jstr

text \<open>
  Everything a run reads that is not one of the three files: the command line and the
  environment variables, the result of the glob, the record files, git, the GitHub API,
  the clock (\<open>now_iso\<close> is \<open>new Date().toISOString()\<close> when the cache is saved,
  \<open>now_utc\<close> is \<open>new Date().toUTCString()\<close> when the document is stamped,
  \<open>elapsed\<close> the text of the elapsed seconds) and the engine's date parsing outside
  the standard format.
\<close>

record env =
  DRY_RUN :: bool
  GITHUB_REPOSITORY :: "jstr option"
  PR_NUMBER :: "jstr option"
  glob_files :: "jstr list"
  xml_of :: "jstr \<Rightarrow> xml_read"
  git_log :: "jstr \<Rightarrow> git_result"
  api_pulls :: "jstr \<Rightarrow> pulls_response"
  api_commit :: "jstr \<Rightarrow> commit_response"
  api_contributors :: "contributor list option"
  api_comment_ok :: bool
  now_iso :: jstr
  now_utc :: jstr
  elapsed :: jstr
  date_fallback :: "jstr \<Rightarrow> int option"

text \<open>\<open>s.split(sep)\<close> for a separator of one code unit.\<close>

fun split_on :: "cu \<Rightarrow> jstr \<Rightarrow> jstr list" where
  "split_on sep [] = [[]]"
| "split_on sep (c # cs) =
     (if c = sep then [] # split_on sep cs
      else (case split_on sep cs of [] \<Rightarrow> [[c]] | p # ps \<Rightarrow> (c # p) # ps))"

text \<open>\<open>const [OWNER, REPO] = (process.env.GITHUB_REPOSITORY || "").split("/")\<close>\<close>

definition repoFull :: "env \<Rightarrow> jstr" where
  "repoFull e = (case GITHUB_REPOSITORY e of None \<Rightarrow> [] | Some r \<Rightarrow> r)"

definition OWNER :: "env \<Rightarrow> jstr option" where
  "OWNER e = (case split_on 0x2F (repoFull e) of [] \<Rightarrow> None | x # xs \<Rightarrow> Some x)"

definition REPO :: "env \<Rightarrow> jstr option" where
  "REPO e = (case split_on 0x2F (repoFull e) of x # y # ys \<Rightarrow> Some y | _ \<Rightarrow> None)"

text \<open>Truthiness of a string that may be \<open>undefined\<close>.\<close>

definition str_truthy :: "jstr option \<Rightarrow> bool" where
  "str_truthy s = (case s of None \<Rightarrow> False | Some t \<Rightarrow> t \<noteq> [])"

section \<open>Sorting\<close>

text \<open>
  \<open>Array.prototype.sort\<close> is stable. \<open>lt a b\<close> says that the comparator returns
  a negative number for \<open>(a, b)\<close>; NaN counts as 0. For a comparator that is a consistent
  order every stable sort gives the result of this insertion sort. For an inconsistent
  one (it arises only from an Invalid Date) the standard leaves the order to the engine.
\<close>

fun insert_by :: "('a \<Rightarrow> 'a \<Rightarrow> bool) \<Rightarrow> 'a \<Rightarrow> 'a list \<Rightarrow> 'a list" where
  "insert_by lt x [] = [x]"
| "insert_by lt x (y # ys) = (if lt x y then x # y # ys else y # insert_by lt x ys)"

definition js_sort :: "('a \<Rightarrow> 'a \<Rightarrow> bool) \<Rightarrow> 'a list \<Rightarrow> 'a list" where
  "js_sort lt xs = foldl (\<lambda>acc x. insert_by lt x acc) [] xs"

text \<open>The numbers that the comparators subtract: a finite number, \<open>-Infinity\<close> or NaN.
  \<open>diff_negative b a\<close> is \<open>b - a < 0\<close>.\<close>

datatype num = Fin int | NegInf | NaN

fun diff_negative :: "num \<Rightarrow> num \<Rightarrow> bool" where
  "diff_negative (Fin b) (Fin a) = (b < a)"
| "diff_negative NegInf (Fin a) = True"
| "diff_negative b a = False"

section \<open>The record parser\<close>

definition EM_DASH :: jstr where
  "EM_DASH = [0x2014]"

text \<open>Case mapping is modelled on the ASCII letters; other code units are left as they
  are. \<open>\w\<close> is a letter, a digit or the underscore.\<close>

definition to_lower_cu :: "cu \<Rightarrow> cu" where
  "to_lower_cu c = (if 0x41 \<le> c \<and> c \<le> 0x5A then c + 0x20 else c)"

definition to_upper_cu :: "cu \<Rightarrow> cu" where
  "to_upper_cu c = (if 0x61 \<le> c \<and> c \<le> 0x7A then c - 0x20 else c)"

definition toLowerCase :: "jstr \<Rightarrow> jstr" where
  "toLowerCase s = map to_lower_cu s"

definition is_word :: "cu \<Rightarrow> bool" where
  "is_word c \<longleftrightarrow> (0x41 \<le> c \<and> c \<le> 0x5A) \<or> (0x61 \<le> c \<and> c \<le> 0x7A) \<or> is_digit c \<or> c = 0x5F"

text \<open>\<open>s.replace(/\b\w/g, c => c.toUpperCase())\<close>: a word character after a
  non-word character or at the start. \<open>prev\<close>: the code unit before was a word character.\<close>

fun cap_words :: "bool \<Rightarrow> jstr \<Rightarrow> jstr" where
  "cap_words prev [] = []"
| "cap_words prev (c # cs) =
     (if is_word c \<and> \<not> prev then to_upper_cu c else c) # cap_words (is_word c) cs"

definition FOCUS_MAP :: "(jstr \<times> jstr) list" where
  "FOCUS_MAP =
     [(js ''cure'', [0xD83E, 0xDDEA] @ js '' Cause and Cure''),
      (js ''disaster'', [0xD83C, 0xDD98] @ js '' Disaster and Community Support''),
      (js ''education'', [0xD83C, 0xDF93] @ js '' Education and Youth Services''),
      (js ''sustainability'', [0xD83C, 0xDF31] @ js '' Sustainability and Decarbonization''),
      (js ''other'', [0xD83E, 0xDDE9] @ js '' Other'')]"

text \<open>\<open>FOCUS_MAP[key]\<close>. The object literal inherits from \<open>Object.prototype\<close>; of the
  inherited names only \<open>constructor\<close> and \<open>__proto__\<close> are lower-case. What is found
  there is used only in template literals and as a property name, hence as its string.\<close>

definition focus_lookup :: "jstr \<Rightarrow> jstr option" where
  "focus_lookup key =
     (case map_of FOCUS_MAP key of
        Some label \<Rightarrow> Some label
      | None \<Rightarrow>
          if key = js ''constructor'' then Some (js ''function Object() { [native code] }'')
          else if key = js ''__proto__'' then Some (js ''[object Object]'')
          else None)"

definition friendlyFocus :: "jstr \<Rightarrow> jstr" where
  "friendlyFocus v =
     (if v = [] then EM_DASH
      else let key = toLowerCase (trim v)
           in (case focus_lookup key of
                 Some label \<Rightarrow> label
               | None \<Rightarrow> cap_words False (map (\<lambda>c. if c = 0x5F then 0x20 else c) key)))"

definition firstText :: "xnode option \<Rightarrow> jstr \<Rightarrow> jstr" where
  "firstText obj key =
     (case obj of
        None \<Rightarrow> []
      | Some XLeaf \<Rightarrow> []
      | Some (XNode kvs) \<Rightarrow> (case map_of kvs key of None \<Rightarrow> [] | Some v \<Rightarrow> trim v))"

text \<open>\<open>s.replace(" ", "T")\<close>: a string pattern replaces its first occurrence only.\<close>

definition replace_first_space :: "jstr \<Rightarrow> jstr" where
  "replace_first_space s =
     (case split_first [0x20] s of None \<Rightarrow> s | Some (a, b) \<Rightarrow> a @ [0x54] @ b)"

record item =
  project_name :: jstr
  focus_area :: jstr
  description :: jstr
  impact :: jstr
  created_dt :: "jsdate option"
  created_raw :: jstr
  path :: jstr

text \<open>\<open>a || b\<close> on strings.\<close>

definition str_or :: "jstr \<Rightarrow> jstr \<Rightarrow> jstr" where
  "str_or a b = (if a \<noteq> [] then a else b)"

text \<open>\<open>parseXmlFile\<close> returns the record, or \<open>null\<close> (\<open>None\<close>) where anything in
  its \<open>try\<close> block throws.\<close>

definition parseXmlFile :: "env \<Rightarrow> jstr \<Rightarrow> item option" where
  "parseXmlFile e filePath =
     (case xml_of e filePath of
        ReadFails \<Rightarrow> None
      | Parsed root \<Rightarrow>
          (let record = (case nested_node root of Some n \<Rightarrow> Some n | None \<Rightarrow> flat_node root)
           in if record = None then None
              else
                let projectName = firstText record (js ''project_name'')
                in if projectName = [] then None
                   else
                     let focusArea = friendlyFocus (firstText record (js ''focus_area''));
                         createdRaw = firstText record (js ''sys_created_on'');
                         createdDt =
                           (if createdRaw \<noteq> []
                            then Some (new_Date (date_fallback e)
                                         (replace_first_space createdRaw @ js ''Z''))
                            else None);
                         description =
                           str_or (firstText record (js ''description''))
                             (str_or (firstText record (js ''short_description'')) EM_DASH);
                         impact = str_or (firstText record (js ''impact_statement'')) EM_DASH
                     in Some \<lparr>project_name = projectName, focus_area = focusArea,
                              description = description, impact = impact,
                              created_dt = createdDt, created_raw = createdRaw,
                              path = filePath\<rparr>))"

section \<open>Attribution\<close>

definition firstAddingCommitSha :: "env \<Rightarrow> jstr \<Rightarrow> jstr option" where
  "firstAddingCommitSha e filePath =
     (case git_log e filePath of
        GitThrows \<Rightarrow> None
      | GitFailed \<Rightarrow> None
      | GitOk out \<Rightarrow>
          (case filter (\<lambda>l. l \<noteq> []) (split_on 0x0A (trim out)) of
             [] \<Rightarrow> None
           | l # ls \<Rightarrow> Some l))"

definition user_attr :: "gh_user \<Rightarrow> jv" where
  "user_attr u =
     JObj [(js ''login'', if str_truthy (u_login u) then JStr (the (u_login u)) else JNull),
           (js ''avatar_url'',
              if str_truthy (u_avatar_url u) then JStr (the (u_avatar_url u) @ js ''&s=40'')
              else JStr []),
           (js ''html_url'',
              if str_truthy (u_html_url u) then JStr (the (u_html_url u)) else JStr [])]"

definition NO_USER :: gh_user where
  "NO_USER = \<lparr>u_login = None, u_avatar_url = None, u_html_url = None\<rparr>"

definition pull_num :: "pull \<Rightarrow> num" where
  "pull_num p = (case pr_created p of None \<Rightarrow> NaN | Some t \<Rightarrow> Fin t)"

text \<open>\<open>resolveAttributionForCommit\<close>: \<open>None\<close> is \<open>null\<close>. Without a commit, an owner
  or a repository name no request is made.\<close>

definition resolveAttributionForCommit :: "env \<Rightarrow> jstr option \<Rightarrow> jv option" where
  "resolveAttributionForCommit e commitSha =
     (if \<not> str_truthy commitSha \<or> \<not> str_truthy (OWNER e) \<or> \<not> str_truthy (REPO e) then None
      else
        (case (case api_pulls e (the commitSha) of
                 PullsData (p # ps) \<Rightarrow>
                   Some (user_attr
                     (case pr_user (hd (js_sort (\<lambda>a b. diff_negative (pull_num a) (pull_num b))
                                          (p # ps))) of
                        None \<Rightarrow> NO_USER
                      | Some u \<Rightarrow> u))
               | _ \<Rightarrow> None) of
           Some attr \<Rightarrow> Some attr
         | None \<Rightarrow>
             (case api_commit e (the commitSha) of
                CommitError \<Rightarrow> None
              | CommitData (Some authorUser) name email \<Rightarrow> Some (user_attr authorUser)
              | CommitData None name email \<Rightarrow>
                  Some (JObj [(js ''login'',
                                 JStr (if str_truthy name then the name
                                       else if str_truthy email then the email
                                       else js ''Unknown'')),
                              (js ''avatar_url'', JStr []),
                              (js ''html_url'', JStr [])]))))"

text \<open>\<open>String(v)\<close>, as a template literal applies it.\<close>

definition join_with :: "jstr \<Rightarrow> jstr list \<Rightarrow> jstr" where
  "join_with sep xs = (case xs of [] \<Rightarrow> [] | y # ys \<Rightarrow> y @ concat (map (\<lambda>x. sep @ x) ys))"

fun to_string :: "jv \<Rightarrow> jstr" where
  "to_string JNull = js ''null''"
| "to_string (JBool b) = (if b then js ''true'' else js ''false'')"
| "to_string (JNum n) = show_int n"
| "to_string (JStr s) = s"
| "to_string (JObj ps) = js ''[object Object]''"
| "to_string (JArr es ps) =
     join_with (js '','') (map (\<lambda>x. if x = JNull then [] else to_string x) es)"

definition renderSubmitterCell :: "jv option \<Rightarrow> jstr" where
  \<open>renderSubmitterCell attr =
     (let login = or_else (opt_chain attr (js ''login'')) (JStr (js ''unknown''));
          url = or_else (opt_chain attr (js ''html_url'')) (JStr []);
          avatar = or_else (opt_chain attr (js ''avatar_url'')) (JStr [])
      in if truthy (Some url) then
           (let img =
              (if truthy (Some avatar) then
                 js ''<img src="'' @ to_string avatar @ js ''" width="20" height="20" alt="@'' @
                 to_string login @
                 js ''" style="vertical-align:middle;border-radius:4px;margin-right:6px"/>''
               else [])
            in js ''<a href="'' @ to_string url @ js ''">'' @ img @ js ''@'' @ to_string login @
               js ''</a>'')
         else js ''@'' @ to_string login)\<close>

section \<open>The report renderer\<close>

definition then_do :: "error + 'a \<Rightarrow> ('a \<Rightarrow> error + 'b) \<Rightarrow> error + 'b" where
  "then_do r k = (case r of Inl x \<Rightarrow> Inl x | Inr v \<Rightarrow> k v)"

definition truncate_str :: "jstr \<Rightarrow> nat \<Rightarrow> jstr" where
  "truncate_str s limit =
     (if s = [] then EM_DASH
      else if length s \<le> limit then s
      else trim (take (limit - 1) s) @ [0x2026])"

text \<open>\<open>d ? d.toISOString().slice(0, 10) : "\<emdash>"\<close>\<close>

definition date_cell :: "jsdate option \<Rightarrow> error + jstr" where
  "date_cell d =
     (case d of
        None \<Rightarrow> Inr EM_DASH
      | Some dt \<Rightarrow> then_do (toISOString dt) (\<lambda>s. Inr (take 10 s)))"

definition UNKNOWN_ATTR :: jv where
  "UNKNOWN_ATTR =
     JObj [(js ''login'', JStr (js ''Unknown'')), (js ''avatar_url'', JStr []),
           (js ''html_url'', JStr [])]"

text \<open>
  The variables of the loop of \<open>buildTable\<close>: the two objects of the cache, the rows,
  the counts per focus area and the keys newly seen.
\<close>

record bt_state =
  bt_attrs :: jv
  bt_seen :: jv
  bt_rows :: "jstr list"
  bt_counts :: "(jstr \<times> nat) list"
  bt_newly :: "jstr list"

text \<open>\<open>attrs[key].__seen = true\<close>: the object under \<open>key\<close> is changed in place.\<close>

definition mark_seen :: "jv \<Rightarrow> jstr \<Rightarrow> error + jv" where
  "mark_seen attrs key =
     (case get_prop attrs key of
        None \<Rightarrow> Inl TypeError
      | Some v \<Rightarrow> then_do (set_prop v (js ''__seen'') (JBool True)) (\<lambda>v'. set_prop attrs key v'))"

text \<open>\<open>Boolean(seen[key] || (attr && attr.__seen))\<close>\<close>

definition wasSeen :: "jv \<Rightarrow> jv \<Rightarrow> jstr \<Rightarrow> bool" where
  "wasSeen attrs seen key \<longleftrightarrow>
     truthy (get_prop seen key) \<or>
     (truthy (get_prop attrs key) \<and> truthy (opt_chain (get_prop attrs key) (js ''__seen'')))"

text \<open>\<open>!attr || !attr.login\<close>\<close>

definition unresolved :: "jv \<Rightarrow> jstr \<Rightarrow> bool" where
  "unresolved attrs key \<longleftrightarrow>
     \<not> truthy (get_prop attrs key) \<or> \<not> truthy (opt_chain (get_prop attrs key) (js ''login''))"

definition table_row :: "jstr \<Rightarrow> jstr \<Rightarrow> jstr \<Rightarrow> jstr \<Rightarrow> jstr \<Rightarrow> jstr \<Rightarrow> jstr" where
  "table_row protoProject focus desc imp submitter created =
     js ''| '' @ protoProject @ js '' | '' @ focus @ js '' | '' @ desc @ js '' | '' @ imp @
     js '' | '' @ submitter @ js '' | '' @ created @ js '' |''"

text \<open>
  The first part of a turn of the loop: where the cache has no entry with a login for
  the key, the attribution is resolved and the result, or the placeholder, is stored
  under the key with the commit it came from.
\<close>

definition resolve_attr :: "env \<Rightarrow> jv \<Rightarrow> jstr \<Rightarrow> error + jv" where
  "resolve_attr e attrs key =
     (if unresolved attrs key then
        (let sha = firstAddingCommitSha e key;
             resolved = resolveAttributionForCommit e sha;
             attr = or_else resolved UNKNOWN_ATTR
         in then_do
              (set_prop attr (js ''__resolved_from'')
                 (case sha of None \<Rightarrow> JNull | Some h \<Rightarrow> JStr h))
              (\<lambda>attr'. set_prop attrs key attr'))
      else Inr attrs)"

text \<open>The second part: a record that was not seen before is marked in the seen set and
  in its cache entry.\<close>

definition mark_new :: "jv \<Rightarrow> jv \<Rightarrow> jstr \<Rightarrow> bool \<Rightarrow> error + jv \<times> jv" where
  "mark_new seen attrs key isNew =
     (if isNew then
        then_do (set_prop seen key (JBool True))
          (\<lambda>seen'. then_do (mark_seen attrs key) (\<lambda>attrs'. Inr (seen', attrs')))
      else Inr (seen, attrs))"

text \<open>One turn of the loop, for the record \<open>it\<close>.\<close>

definition bt_step :: "env \<Rightarrow> item \<Rightarrow> bt_state \<Rightarrow> error + bt_state" where
  "bt_step e it st =
     (let project = js ''['' @ project_name it @ js '']('' @ path it @ js '')'';
          focus = focus_area it;
          key = path it;
          counts = AList.update focus
                     ((case map_of (bt_counts st) focus of None \<Rightarrow> 0 | Some n \<Rightarrow> n) + 1)
                     (bt_counts st);
          seen_before = wasSeen (bt_attrs st) (bt_seen st) key
      in then_do (resolve_attr e (bt_attrs st) key)
           (\<lambda>attrs1.
              let isNew = \<not> seen_before
              in then_do (mark_new (bt_seen st) attrs1 key isNew)
                   (\<lambda>(seen2, attrs2).
                      let submitter = renderSubmitterCell (get_prop attrs2 key)
                      in then_do (date_cell (created_dt it))
                           (\<lambda>created.
                              let desc = truncate_str (description it) 110;
                                  imp = truncate_str (impact it) 70;
                                  protoProject = (if isNew then [0x2728, 0x20] @ project else project)
                              in Inr \<lparr>bt_attrs = attrs2, bt_seen = seen2,
                                      bt_rows = bt_rows st @
                                        [table_row protoProject focus desc imp submitter created],
                                      bt_counts = counts,
                                      bt_newly = (if isNew then bt_newly st @ [key]
                                                  else bt_newly st)\<rparr>))))"

fun bt_loop :: "env \<Rightarrow> item list \<Rightarrow> bt_state \<Rightarrow> error + bt_state" where
  "bt_loop e [] st = Inr st"
| "bt_loop e (it # its) st = then_do (bt_step e it st) (bt_loop e its)"


text \<open>
  \<open>Object.entries\<close> lists the keys that are array indices first, in ascending order,
  then the other keys in the order they were created.
\<close>

definition dec_val :: "jstr \<Rightarrow> int" where
  "dec_val k = foldl (\<lambda>n c. 10 * n + int (digit_val c)) 0 k"

definition is_index_key :: "jstr \<Rightarrow> bool" where
  "is_index_key k \<longleftrightarrow>
     k \<noteq> [] \<and> list_all is_digit k \<and> (k = js ''0'' \<or> hd k \<noteq> 0x30) \<and> dec_val k \<le> 4294967294"

definition object_entries :: "(jstr \<times> 'a) list \<Rightarrow> (jstr \<times> 'a) list" where
  "object_entries ps =
     js_sort (\<lambda>a b. dec_val (fst a) < dec_val (fst b)) (filter (\<lambda>p. is_index_key (fst p)) ps) @
     filter (\<lambda>p. \<not> is_index_key (fst p)) ps"

text \<open>The summary and the table, from the records and the final state of the loop.\<close>

definition topFocus :: "(jstr \<times> nat) list \<Rightarrow> jstr" where
  "topFocus counts =
     (case js_sort (\<lambda>a b. snd b < snd a) (object_entries counts) of
        [] \<Rightarrow> js ''N/A''
      | x # xs \<Rightarrow> fst x)"

definition summaryLines :: "item list \<Rightarrow> bt_state \<Rightarrow> jstr \<Rightarrow> jstr \<Rightarrow> jstr list" where
  "summaryLines items st oldest newest =
     [js ''**Total Ideas:** '' @ show_nat (length items),
      js ''**Top Focus Area:** '' @ topFocus (bt_counts st),
      js ''**Date Range:** '' @ oldest @ [0x20, 0x2192, 0x20] @ newest,
      js ''**New submissions this run:** '' @ show_nat (length (bt_newly st))]"

definition TABLE_HEADER :: jstr where
  "TABLE_HEADER =
     js ''| Project | Focus area | Description | Impact | Submitted by | Created (UTC) |\<newline>'' @
     js ''|---|---|---|---|---|---|\<newline>''"

text \<open>The two ends of the date range: \<open>newest\<close> from the first record, then
  \<open>oldest\<close> from the last one. The result is the pair \<open>(oldest, newest)\<close>.\<close>

definition date_range :: "item list \<Rightarrow> error + jstr \<times> jstr" where
  "date_range items =
     then_do (date_cell (created_dt (hd items)))
       (\<lambda>newest. then_do (date_cell (created_dt (last items)))
          (\<lambda>oldest. Inr (oldest, newest)))"

definition render_table :: "item list \<Rightarrow> bt_state \<Rightarrow> error + jstr" where
  "render_table items st =
     then_do (date_range items)
       (\<lambda>(oldest, newest).
          let summaryMd = js ''### '' @ [0xD83D, 0xDCCA] @ js '' Ideas Summary\<newline>\<newline>'' @
                          join_with (js ''  \<newline>'') (summaryLines items st oldest newest) @
                          js ''\<newline>\<newline>''
          in Inr (js ''\<newline>'' @ summaryMd @ TABLE_HEADER @
                  join_with (js ''\<newline>'') (bt_rows st) @ js ''\<newline>''))"

definition init_state :: "jv \<Rightarrow> jv \<Rightarrow> bt_state" where
  "init_state attrs seen =
     \<lparr>bt_attrs = attrs, bt_seen = seen, bt_rows = [], bt_counts = [], bt_newly = []\<rparr>"

definition NO_IDEAS :: jstr where
  "NO_IDEAS = js ''\<newline>_No ideas yet. Be the first to submit one!_\<newline>''"

text \<open>
  \<open>buildTable\<close> returns the markdown or throws, and leaves the files as they are or
  with the cache file rewritten; the result is the pair of both. The cache is saved
  after the loop and before the summary is made, whatever the mode of the run.
\<close>

text \<open>The state in which the loop starts: \<open>attrs = cacheAttrs || {}\<close> and
  \<open>seen = meta?.seen || {}\<close> from the cache file.\<close>

definition start_state :: "fs \<Rightarrow> bt_state" where
  "start_state f =
     (let (cacheAttrs, meta) = loadCacheFile f
      in init_state (or_else (Some cacheAttrs) (JObj [])) (seen_of meta))"

definition buildTable :: "env \<Rightarrow> item list \<Rightarrow> fs \<Rightarrow> (error + jstr) \<times> fs" where
  "buildTable e items f =
     (if items = [] then (Inr NO_IDEAS, f)
      else
        ((case bt_loop e items (start_state f) of
               Inl x \<Rightarrow> (Inl x, f)
             | Inr st \<Rightarrow>
                 (let metaToSave = JObj [(js ''seen'', bt_seen st),
                                         (js ''lastRun'', JStr (now_iso e))]
                  in (render_table items st, saveCacheFile (bt_attrs st) metaToSave f)))))"

section \<open>The run\<close>

definition readReadme :: "fs \<Rightarrow> jstr" where
  "readReadme f = (case readme f of Some t \<Rightarrow> t | None \<Rightarrow> js ''# Hack4Good\<newline>\<newline>'')"

definition fetchAllContributors :: "env \<Rightarrow> contributor list" where
  "fetchAllContributors e =
     (if \<not> str_truthy (OWNER e) \<or> \<not> str_truthy (REPO e) then []
      else (case api_contributors e of None \<Rightarrow> [] | Some cs \<Rightarrow> cs))"

definition renderContributorsMd :: "contributor list \<Rightarrow> jstr" where
  \<open>renderContributorsMd contributors =
     (if contributors = [] then []
      else js ''### '' @ [0x2764, 0xFE0F] @ js '' Contributors\<newline>\<newline>'' @
           join_with (js '' '')
             (map (\<lambda>c. js ''[<img src="'' @ c_avatar_url c @
                        js ''&s=60" width="60" height="60" alt="'' @ c_login c @
                        js ''" style="border-radius:8px"/>]('' @ c_html_url c @ js '')'')
                contributors) @
           js ''\<newline>\<newline>'')\<close>

definition headerBlock :: "jstr \<Rightarrow> jstr \<Rightarrow> jstr" where
  "headerBlock contributorsMd tableMd =
     js ''## A Special Partnership: Hack4Good\<newline>\<newline>'' @
     js ''We are thrilled to announce that we are partnering with our friends at Hack4Good!\<newline>\<newline>'' @
     js ''> This repository stores idea submissions for Hack4Good initiatives. You can import this application into a ServiceNow instance and submit ideas. Follow the CONTRIBUTING.md for guidelines.\<newline>\<newline>'' @
     contributorsMd @ js ''\<newline>'' @ tableMd @ js ''\<newline>''"

text \<open>The comparator of the sort in \<open>main\<close>: \<open>bv - av\<close>, with \<open>-Infinity\<close> for a record
  without a date and \<open>getTime()\<close>, which is NaN for an Invalid Date, otherwise.\<close>

definition time_num :: "item \<Rightarrow> num" where
  "time_num x =
     (case created_dt x of
        None \<Rightarrow> NegInf
      | Some d \<Rightarrow> (case getTime d of None \<Rightarrow> NaN | Some t \<Rightarrow> Fin t))"

definition sort_items :: "item list \<Rightarrow> item list" where
  "sort_items xs = js_sort (\<lambda>a b. diff_negative (time_num b) (time_num a)) xs"

text \<open>
  \<open>current.replace(/\n_Last updated:[\s\S]*?_\n?$/, "")\<close>. Without the \<open>m\<close> flag
  \<open>$\<close> is the end of the text, so a match is an occurrence of \<open>\n_Last updated:\<close>
  followed by a text that ends in an underscore or in an underscore and a line feed; it
  reaches to the end of the text. If any occurrence has such a continuation, the leftmost
  has, and the match starts there.
\<close>

definition LAST_UPDATED :: jstr where
  "LAST_UPDATED = js ''\<newline>_Last updated:''"

definition strip_last_updated :: "jstr \<Rightarrow> jstr" where
  "strip_last_updated current =
     (case split_first LAST_UPDATED current of
        None \<Rightarrow> current
      | Some (a, r) \<Rightarrow>
          if suffix (js ''_'') r \<or> suffix (js ''_\<newline>'') r then a else current)"

text \<open>The write branch of \<open>main\<close>: the document is written, read back, stamped and
  written again.\<close>

definition stamp_readme :: "env \<Rightarrow> jstr \<Rightarrow> jstr" where
  "stamp_readme e updated =
     trimEnd (strip_last_updated updated) @ js ''\<newline>\<newline>'' @
     (js ''\<newline>_Last updated: '' @ now_utc e @ js ''_\<newline>'')"

definition postPrComment :: "env \<Rightarrow> jstr list" where
  "postPrComment e =
     (if \<not> str_truthy (OWNER e) \<or> \<not> str_truthy (REPO e) \<or> \<not> str_truthy (PR_NUMBER e)
      then [[0x2139, 0xFE0F] @ js '' PR comment skipped (missing OWNER/REPO/PR_NUMBER).'']
      else if api_comment_ok e
      then [[0xD83D, 0xDCAC] @ js '' Commented on PR #'' @ the (PR_NUMBER e)]
      else [])"

text \<open>What a run leaves: the files, the lines written with \<open>console.log\<close> and the exit
  code. Standard error is not modelled.\<close>

record outcome =
  out_fs :: fs
  out_stdout :: "jstr list"
  out_exit :: nat

definition tail_logs :: "env \<Rightarrow> jstr list \<Rightarrow> jstr list" where
  "tail_logs e failed =
     (if failed \<noteq> []
      then ([0x26A0, 0xFE0F, 0x20] @ show_nat (length failed) @ js '' files failed to parse:'') #
           map (\<lambda>f. js ''  - '' @ f) failed
      else []) @
     [[0x23F1, 0xFE0F] @ js '' Completed in '' @ elapsed e @ js ''s''] @
     (if str_truthy (PR_NUMBER e) then postPrComment e else []) @
     (if str_truthy (OWNER e) \<and> str_truthy (REPO e)
      then [[0xD83C, 0xDF10] @ js '' GitHub Pages preview (if enabled): https://'' @
            the (OWNER e) @ js ''.github.io/'' @ the (REPO e) @ js ''/'']
      else [])"

text \<open>The records of a run, sorted, and the files that failed to parse.\<close>

definition parsed_items :: "env \<Rightarrow> item list" where
  "parsed_items e = sort_items (List.map_filter (parseXmlFile e) (glob_files e))"

definition failed_files :: "env \<Rightarrow> jstr list" where
  "failed_files e = filter (\<lambda>p. parseXmlFile e p = None) (glob_files e)"

text \<open>The block that is injected: the header with the contributors and the table.\<close>

definition block_of :: "env \<Rightarrow> jstr \<Rightarrow> jstr" where
  "block_of e tableMd = headerBlock (renderContributorsMd (fetchAllContributors e)) tableMd"

text \<open>
  The part of \<open>main\<close> after the block is made: the backup, the injection, and the
  preview or the write. It returns the files and the lines logged.
\<close>

definition write_back :: "env \<Rightarrow> fs \<Rightarrow> jstr \<Rightarrow> fs \<times> jstr list" where
  "write_back e f1 block =
     (let readme0 = readReadme f1;
          do_backup = (\<not> DRY_RUN e \<and> readme f1 \<noteq> None);
          f2 = (if do_backup then f1\<lparr>backup := readme f1\<rparr> else f1);
          log1 = (if do_backup
                  then [[0xD83D, 0xDDC2, 0xFE0F] @ js '' Backup saved to README_backup.md'']
                  else []);
          updated = replaceBetweenMarkers readme0 block
      in if DRY_RUN e then
           (f2, log1 @ [[0xD83E, 0xDDEA] @
                        js '' Dry-run: no changes written. Preview follows:\<newline>'',
                        updated])
         else if updated \<noteq> readme0 then
           (f2\<lparr>readme := Some (stamp_readme e updated)\<rparr>,
            log1 @ [[0x2705] @ js '' README.md updated.''])
         else (f2, log1 @ [[0x2139, 0xFE0F] @ js '' README.md unchanged.'']))"

text \<open>A rejection of \<open>main\<close> is reported on standard error and the process exits
  with code 1.\<close>

definition main :: "env \<Rightarrow> fs \<Rightarrow> outcome" where
  "main e f0 =
     (let log0 = [[0xD83D, 0xDD0E] @ js '' Searching for idea XML files...'',
                  js ''Found '' @ show_nat (length (glob_files e)) @ js '' files.'']
      in (case buildTable e (parsed_items e) f0 of
            (Inl x, f1) \<Rightarrow> \<lparr>out_fs = f1, out_stdout = log0, out_exit = 1\<rparr>
          | (Inr tableMd, f1) \<Rightarrow>
              (let (f3, logs) = write_back e f1 (block_of e tableMd)
               in \<lparr>out_fs = f3, out_stdout = log0 @ logs @ tail_logs e (failed_files e),
                   out_exit = 0\<rparr>)))"

section \<open>Observations of runs\<close>

text \<open>A value is a mapping when it is an object.\<close>

definition is_obj :: "jv \<Rightarrow> bool" where
  "is_obj v = (case v of JObj ps \<Rightarrow> True | _ \<Rightarrow> False)"


text \<open>The cache holds for the key an entry, an object, with a non-empty login.\<close>

definition cached_login :: "jv \<Rightarrow> jstr \<Rightarrow> bool" where
  "cached_login attrs key =
     (case get_prop attrs key of
        Some (JObj qs) \<Rightarrow> truthy (map_of qs (js ''login''))
      | _ \<Rightarrow> False)"





section \<open>The date range as the specification words it\<close>

text \<open>
  The specification asks for the minimum and the maximum creation date among the records
  with a known timestamp. \<open>known_times\<close> are the time values of those records,
  \<open>date_text\<close> is the date as the table shows it, and \<open>spec_date_range\<close> is the pair
  (oldest, newest) the specification describes, with the placeholder where no record has
  a timestamp.
\<close>

definition known_times :: "item list \<Rightarrow> int list" where
  "known_times items =
     concat (map (\<lambda>it. case created_dt it of
                          Some (Date (Some t)) \<Rightarrow> [t]
                        | _ \<Rightarrow> []) items)"

definition date_text :: "int \<Rightarrow> jstr" where
  "date_text t = (case toISOString (Date (Some t)) of Inr s \<Rightarrow> take 10 s | Inl x \<Rightarrow> [])"

definition spec_date_range :: "item list \<Rightarrow> jstr \<times> jstr" where
  "spec_date_range items =
     (if known_times items = [] then (EM_DASH, EM_DASH)
      else (date_text (Min (set (known_times items))), date_text (Max (set (known_times items)))))"

text \<open>The key by which \<open>main\<close> sorts a record that has no Invalid Date: its time value,
  or \<open>None\<close>, below every time value, when it has no date.\<close>

definition time_key :: "item \<Rightarrow> int option" where
  "time_key it = (case created_dt it of Some (Date t) \<Rightarrow> t | None \<Rightarrow> None)"

section \<open>Blocks that leave the markers and the stamp alone\<close>



section \<open>Sample inputs\<close>

text \<open>
  A checkout without git history and without a repository name, so that every
  resolution fails and no request is made; the clock is fixed. \<open>proposal\<close> is a record
  file with the given fields under the nested path.
\<close>

definition sample_env :: "bool \<Rightarrow> jstr list \<Rightarrow> (jstr \<Rightarrow> xml_read) \<Rightarrow> env" where
  "sample_env dry files xml =
     \<lparr>DRY_RUN = dry, GITHUB_REPOSITORY = None, PR_NUMBER = None,
      glob_files = files, xml_of = xml,
      git_log = (\<lambda>p. GitFailed), api_pulls = (\<lambda>h. PullsError),
      api_commit = (\<lambda>h. CommitError), api_contributors = None, api_comment_ok = False,
      now_iso = js ''2025-11-01T00:00:00.000Z'',
      now_utc = js ''Sat, 01 Nov 2025 00:00:00 GMT'',
      elapsed = js ''0.1'', date_fallback = (\<lambda>t. None)\<rparr>"

definition proposal :: "(jstr \<times> jstr) list \<Rightarrow> xml_read" where
  "proposal kvs = Parsed \<lparr>nested_node = Some (XNode kvs), flat_node = None\<rparr>"

definition FILE_1 :: jstr where
  "FILE_1 = js ''update/x_snc_hack4good_0_hack4good_proposal_1.xml''"

definition FILE_2 :: jstr where
  "FILE_2 = js ''update/x_snc_hack4good_0_hack4good_proposal_2.xml''"

definition no_files :: fs where
  "no_files = \<lparr>readme = None, backup = None, cache = NoFile\<rparr>"

text \<open>One record file whose creation time has month 13 and day 45.\<close>

definition bad_date_xml :: "jstr \<Rightarrow> xml_read" where
  "bad_date_xml p =
     proposal [(js ''project_name'', js ''Alpha''),
               (js ''sys_created_on'', js ''2025-13-45 10:00:00'')]"

text \<open>One record file with a name, a focus area and a creation time.\<close>

definition good_xml :: "jstr \<Rightarrow> xml_read" where
  "good_xml p =
     proposal [(js ''project_name'', js ''Alpha''),
               (js ''focus_area'', js ''education''),
               (js ''sys_created_on'', js ''2025-10-31 10:00:00'')]"

text \<open>Two record files: the first with a creation time, the second without.\<close>

definition mixed_xml :: "jstr \<Rightarrow> xml_read" where
  "mixed_xml p =
     (if p = FILE_1 then good_xml p else proposal [(js ''project_name'', js ''Beta'')])"

text \<open>A document with the delimited region, and a cache that holds the first record
  file with a login and as seen.\<close>

definition seen_files :: fs where
  "seen_files =
     \<lparr>readme = Some (js ''# Ideas\<newline><!-- ideas:start -->\<newline>old\<newline><!-- ideas:end -->\<newline>''),
      backup = None,
      cache = Json (JObj
        [(js ''attrs'', JObj [(FILE_1, JObj [(js ''login'', JStr (js ''octocat'')),
                                             (js ''avatar_url'', JStr []),
                                             (js ''html_url'', JStr [])])]),
         (js ''meta'', JObj [(js ''seen'', JObj [(FILE_1, JBool True)]),
                             (js ''lastRun'', JNull)])])\<rparr>"

text \<open>A document whose markers are out of order, with an older backup beside it.\<close>

definition swapped_files :: fs where
  "swapped_files =
     \<lparr>readme = Some (js ''<!-- ideas:end -->x<!-- ideas:start -->''),
      backup = Some (js ''old''), cache = NoFile\<rparr>"


definition unmarked_files :: fs where
  "unmarked_files = seen_files\<lparr>readme := Some (js ''# Ideas\<newline>'')\<rparr>"

text \<open>
  The block that a run of the sample makes for the one record of \<open>good_xml\<close>: the
  header, the summary with the given count of new submissions, and the row with the
  given mark before the project and the given login.
\<close>

definition sample_block :: "jstr \<Rightarrow> jstr \<Rightarrow> jstr \<Rightarrow> jstr" where
  "sample_block new_count mark login =
     js ''## A Special Partnership: Hack4Good\<newline>'' @
     js ''\<newline>'' @
     js ''We are thrilled to announce that we are partnering with our friends at Hack4Good!\<newline>'' @
     js ''\<newline>'' @
     js ''> This repository stores idea submissions for Hack4Good initiatives. You can import this application into a ServiceNow instance and submit ideas. Follow the CONTRIBUTING.md for guidelines.\<newline>'' @
     js ''\<newline>'' @
     js ''\<newline>'' @
     js ''\<newline>'' @
     js ''### '' @ [0xD83D, 0xDCCA] @ js '' Ideas Summary\<newline>'' @
     js ''\<newline>'' @
     js ''**Total Ideas:** 1  \<newline>'' @
     js ''**Top Focus Area:** '' @ [0xD83C, 0xDF93] @ js '' Education and Youth Services  \<newline>'' @
     js ''**Date Range:** 2025-10-31 '' @ [0x2192] @ js '' 2025-10-31  \<newline>'' @
     js ''**New submissions this run:** '' @ new_count @ js ''\<newline>'' @
     js ''\<newline>'' @
     js ''| Project | Focus area | Description | Impact | Submitted by | Created (UTC) |\<newline>'' @
     js ''|---|---|---|---|---|---|\<newline>'' @
     js ''| '' @ mark @ js ''[Alpha](update/x_snc_hack4good_0_hack4good_proposal_1.xml) | '' @
     [0xD83C, 0xDF93] @ js '' Education and Youth Services | '' @ [0x2014] @ js '' | '' @
     [0x2014] @ js '' | @'' @ login @ js '' | 2025-10-31 |\<newline>'' @
     js ''\<newline>''"


section \<open>Facts about searching\<close>

lemma split_first_sound:
  "split_first n h = Some (a, b) \<Longrightarrow> h = a @ n @ b"
proof (induction h arbitrary: a b)
  case Nil
  then show ?case by (simp split: if_splits)
next
  case (Cons x xs)
  show ?case
  proof (cases "prefix n (x # xs)")
    case True
    with Cons.prems have "a = []" and "b = drop (length n) (x # xs)" by simp_all
    moreover from True obtain r where "x # xs = n @ r" by (auto simp: prefix_def)
    ultimately show ?thesis by simp
  next
    case False
    with Cons.prems obtain a' where "split_first n xs = Some (a', b)" and "a = x # a'"
      by auto
    with Cons.IH show ?thesis by simp
  qed
qed

lemma split_first_leftmost:
  "h = a @ n @ b \<Longrightarrow> \<exists>p r. split_first n h = Some (p, r) \<and> length p \<le> length a"
proof (induction h arbitrary: a)
  case Nil
  then show ?case by simp
next
  case (Cons x xs)
  show ?case
  proof (cases "prefix n (x # xs)")
    case True
    then show ?thesis by simp
  next
    case False
    with Cons.prems have "a \<noteq> []" by (auto simp: prefix_def)
    then obtain a' where a: "a = x # a'" and xs: "xs = a' @ n @ b"
      using Cons.prems by (cases a) auto
    from Cons.IH [OF xs] obtain p r where "split_first n xs = Some (p, r)"
      and "length p \<le> length a'" by blast
    with False a show ?thesis by simp
  qed
qed

lemma split_first_None_iff:
  "split_first n h = None \<longleftrightarrow> \<not> (\<exists>a b. h = a @ n @ b)"
proof
  assume "split_first n h = None"
  then show "\<not> (\<exists>a b. h = a @ n @ b)"
    using split_first_leftmost [of h _ n] by fastforce
next
  assume "\<not> (\<exists>a b. h = a @ n @ b)"
  then show "split_first n h = None"
    using split_first_sound [of n h] by (cases "split_first n h") auto
qed

lemma js_includes_iff: "js_includes h n \<longleftrightarrow> (\<exists>a b. h = a @ n @ b)"
  by (simp add: js_includes_def split_first_None_iff)

text \<open>
  A start marker followed later by an end marker, said with the search functions and
  said with concatenation.
\<close>

lemma match_markers_Some_iff:
  "match_markers doc \<noteq> None \<longleftrightarrow>
     (\<exists>a b c. doc = a @ MARKER_START @ b @ MARKER_END @ c)"
proof
  assume "match_markers doc \<noteq> None"
  then obtain pre rest mid post
    where "split_first MARKER_START doc = Some (pre, rest)"
      and "split_first MARKER_END rest = Some (mid, post)"
    by (auto simp: match_markers_def split: option.splits)
  then have "doc = pre @ MARKER_START @ mid @ MARKER_END @ post"
    by (auto dest!: split_first_sound)
  then show "\<exists>a b c. doc = a @ MARKER_START @ b @ MARKER_END @ c" by blast
next
  assume "\<exists>a b c. doc = a @ MARKER_START @ b @ MARKER_END @ c"
  then obtain a b c where t: "doc = a @ MARKER_START @ b @ MARKER_END @ c" by blast
  from split_first_leftmost [of doc a MARKER_START "b @ MARKER_END @ c"] t
  obtain p r where pr: "split_first MARKER_START doc = Some (p, r)"
    and le: "length p \<le> length a" by auto
  from split_first_sound [OF pr] t
  have "p @ MARKER_START @ r = a @ MARKER_START @ b @ MARKER_END @ c" by simp
  with le obtain d where "a = p @ d"
    by (metis append_eq_append_conv_if append_take_drop_id)
  with \<open>p @ MARKER_START @ r = a @ MARKER_START @ b @ MARKER_END @ c\<close>
  have "MARKER_START @ r = d @ MARKER_START @ b @ MARKER_END @ c" by simp
  then have "r = drop (length MARKER_START) (d @ MARKER_START) @ b @ MARKER_END @ c"
    by (metis append.assoc append_eq_conv_conj drop_append length_append
        diff_is_0_eq' le_add2 drop0 add.commute)
  then have "\<exists>u v. r = u @ MARKER_END @ v" by (metis append.assoc)
  then have "split_first MARKER_END r \<noteq> None"
    by (simp add: split_first_None_iff)
  with pr show "match_markers doc \<noteq> None"
    by (auto simp: match_markers_def split: option.splits)
qed

lemma escapeRegExp_markers:
  "escapeRegExp MARKER_START = MARKER_START" "escapeRegExp MARKER_END = MARKER_END"
  by (simp_all add: escapeRegExp_def MARKER_START_def MARKER_END_def js_def is_regexp_special_def)


section \<open>Facts about replacement patterns and injection\<close>

declare get_substitution.simps [simp del]







lemma replaceBetweenMarkers_append:
  assumes "\<not> js_includes doc MARKER_START \<or> \<not> js_includes doc MARKER_END"
  shows "replaceBetweenMarkers doc block =
           trimEnd doc @ js ''\<newline>\<newline>'' @ MARKER_START @ js ''\<newline>\<newline>'' @
           UPDATED_NOTE @ js ''\<newline>\<newline>'' @ block @ js ''\<newline>'' @ MARKER_END @
           js ''\<newline>''"
  using assms by (auto simp: replaceBetweenMarkers_def)

lemma trimEnd_decomp: "\<exists>w. doc = trimEnd doc @ w \<and> (\<forall>c \<in> set w. is_ws c)"
proof -
  have "rev doc = takeWhile is_ws (rev doc) @ dropWhile is_ws (rev doc)" by simp
  then have "rev (rev doc) = rev (takeWhile is_ws (rev doc) @ dropWhile is_ws (rev doc))"
    by simp
  then have "doc = rev (dropWhile is_ws (rev doc)) @ rev (takeWhile is_ws (rev doc))"
    by (simp only: rev_append rev_rev_ident)
  moreover have "\<forall>c \<in> set (rev (takeWhile is_ws (rev doc))). is_ws c"
    by (auto dest: set_takeWhileD)
  ultimately show ?thesis unfolding trimEnd_def by blast
qed


lemma replaceBetweenMarkers_unmatched:
  assumes "js_includes doc MARKER_START" and "js_includes doc MARKER_END"
    and "match_markers doc = None"
  shows "replaceBetweenMarkers doc block = doc"
  using assms by (simp add: replaceBetweenMarkers_def replace_markers_def)

section \<open>Injection: markers out of order\<close>

text \<open>
  Claim C10. If the document contains both marker strings but no start marker is
  followed later by an end marker, \<open>replaceBetweenMarkers\<close> returns the document as it
  is: nothing is replaced and nothing is appended. (The first branch is not taken, since
  both markers are there, and the regular expression finds no match, so \<open>replace\<close>
  returns its receiver.)
\<close>

theorem C10_markers_out_of_order_unchanged:
  assumes "\<exists>a b. doc = a @ MARKER_START @ b"
    and "\<exists>a b. doc = a @ MARKER_END @ b"
    and "\<not> (\<exists>a b c. doc = a @ MARKER_START @ b @ MARKER_END @ c)"
  shows "replaceBetweenMarkers doc block = doc"
proof -
  from assms(1,2) have "js_includes doc MARKER_START" and "js_includes doc MARKER_END"
    by (simp_all add: js_includes_iff)
  moreover from assms(3) have "match_markers doc = None"
    using match_markers_Some_iff [of doc] by blast
  ultimately show ?thesis
    by (rule replaceBetweenMarkers_unmatched)
qed

theorem C10_markers_out_of_order_unchanged_witness:
  "(\<exists>a b. js ''<!-- ideas:end -->x<!-- ideas:start -->'' = a @ MARKER_START @ b) \<and>
   (\<exists>a b. js ''<!-- ideas:end -->x<!-- ideas:start -->'' = a @ MARKER_END @ b) \<and>
   \<not> (\<exists>a b c. js ''<!-- ideas:end -->x<!-- ideas:start -->'' =
          a @ MARKER_START @ b @ MARKER_END @ c) \<and>
   replaceBetweenMarkers (js ''<!-- ideas:end -->x<!-- ideas:start -->'') (js ''new'') =
     js ''<!-- ideas:end -->x<!-- ideas:start -->''"
proof -
  let ?d = "js ''<!-- ideas:end -->x<!-- ideas:start -->''"
  have 1: "\<exists>a b. ?d = a @ MARKER_START @ b"
    unfolding js_includes_iff [symmetric] by code_simp
  have 2: "\<exists>a b. ?d = a @ MARKER_END @ b"
    unfolding js_includes_iff [symmetric] by code_simp
  have "match_markers ?d = None" by code_simp
  then have 3: "\<not> (\<exists>a b c. ?d = a @ MARKER_START @ b @ MARKER_END @ c)"
    using match_markers_Some_iff [of ?d] by simp
  from C10_markers_out_of_order_unchanged [OF 1 2 3, of "js ''new''"] 1 2 3
  show ?thesis by blast
qed


section \<open>Injection: replacing the delimited region\<close>

text \<open>
  Where the document has a start marker followed by an end marker and the block has no
  dollar sign, the region between the first start marker and the first end marker after
  it is replaced by the note and the block; the markers and the text outside them stay
  (lemma \<open>replaceBetweenMarkers_replace\<close>). Where a marker is missing, the delimited
  region is appended to the document trimmed at its end (lemma
  \<open>replaceBetweenMarkers_append\<close>).
\<close>

lemma inject_scenario_replace:
  "replaceBetweenMarkers
     (js ''A\<newline><!-- ideas:start -->\<newline>old\<newline><!-- ideas:end -->\<newline>B'') (js ''new'') =
   js ''A\<newline><!-- ideas:start -->\<newline>\<newline>_Updated automatically on merge to `main`._\<newline>new<!-- ideas:end -->\<newline>B''"
  by code_simp

lemma inject_scenario_append:
  "replaceBetweenMarkers (js ''# Hack4Good\<newline>\<newline>'') (js ''X'') =
   js ''# Hack4Good\<newline>\<newline><!-- ideas:start -->\<newline>\<newline>_Updated automatically on merge to `main`._\<newline>\<newline>X\<newline><!-- ideas:end -->\<newline>''"
  by code_simp

text \<open>
  Claim C7, at an input where the code departs from it. The block is spliced into the
  replacement string of \<open>String.prototype.replace\<close>, which expands \<open>$1\<close> in it to the
  first capture group, the start marker: the text put between the markers is not the
  block. The appending branch concatenates and inserts the same block verbatim.
\<close>

theorem C7_block_with_dollar_is_expanded:
  "replaceBetweenMarkers
     (js ''A\<newline><!-- ideas:start -->\<newline>old\<newline><!-- ideas:end -->\<newline>B'')
     (js ''Cost: $1 per user'') =
   js ''A\<newline><!-- ideas:start -->\<newline>\<newline>_Updated automatically on merge to `main`._\<newline>Cost: <!-- ideas:start --> per user<!-- ideas:end -->\<newline>B''"
  by code_simp

text \<open>The text the claim expects between the markers is not what comes out.\<close>

theorem C7_block_with_dollar_is_expanded_witness:
  "replaceBetweenMarkers
     (js ''A\<newline><!-- ideas:start -->\<newline>old\<newline><!-- ideas:end -->\<newline>B'')
     (js ''Cost: $1 per user'') \<noteq>
   js ''A\<newline><!-- ideas:start -->\<newline>\<newline>_Updated automatically on merge to `main`._\<newline>Cost: $1 per user<!-- ideas:end -->\<newline>B''"
  using C7_block_with_dollar_is_expanded by (simp add: js_def)

section \<open>The cache file: saving and loading\<close>

lemma json_of_id: "is_json v \<Longrightarrow> json_of v = v"
proof (induction v rule: json_of.induct)
  case (1 es ps)
  then show ?case by (auto simp: list_all_iff intro: map_idI)
next
  case (2 ps)
  then show ?case by (auto simp: list_all_iff intro!: map_idI)
qed simp_all


lemma is_json_EMPTY_META: "is_json EMPTY_META"
  by (simp add: EMPTY_META_def)

lemma seen_of_falsy: "\<not> truthy (Some meta) \<Longrightarrow> seen_of meta = JObj []"
  by (cases meta) (simp_all add: seen_of_def or_else_def)

lemma seen_of_EMPTY_META: "seen_of EMPTY_META = JObj []"
  by (simp add: seen_of_def or_else_def EMPTY_META_def js_def)

lemma keys_distinct: "js ''attrs'' \<noteq> js ''meta''" "js ''meta'' \<noteq> js ''attrs''"
  by (simp_all add: js_def)

lemma cache_saveCacheFile:
  "cache (saveCacheFile attrs meta f) =
     Json (JObj [(js ''attrs'', json_of (or_else (Some attrs) (JObj []))),
                 (js ''meta'', json_of (or_else (Some meta) EMPTY_META))])"
  by (simp add: saveCacheFile_def)

lemma loadCacheFile_wrapper:
  assumes "cache f = Json (JObj [(js ''attrs'', a), (js ''meta'', m)])" and "truthy (Some a)"
  shows "loadCacheFile f = (a, or_else (Some m) EMPTY_META)"
  using assms by (simp add: loadCacheFile_def typeof_object_def keys_distinct or_else_def)

text \<open>
  Claim C9. \<open>saveCacheFile\<close> always writes the wrapper object with the keys \<open>attrs\<close>
  and \<open>meta\<close>. For every attribution mapping (an object) and every metadata value that
  JSON can represent, loading what was saved gives back the same mapping and the same
  seen set.
\<close>

theorem C9_cache_roundtrip:
  "(\<exists>a m. cache (saveCacheFile attrs meta f) = Json (JObj [(js ''attrs'', a), (js ''meta'', m)])) \<and>
   (is_json attrs \<and> is_json meta \<and> (\<exists>ps. attrs = JObj ps) \<longrightarrow>
      fst (loadCacheFile (saveCacheFile attrs meta f)) = attrs \<and>
      seen_of (snd (loadCacheFile (saveCacheFile attrs meta f))) = seen_of meta)"
proof (intro conjI impI)
  show "\<exists>a m. cache (saveCacheFile attrs meta f) = Json (JObj [(js ''attrs'', a), (js ''meta'', m)])"
    by (simp add: cache_saveCacheFile)
next
  assume h: "is_json attrs \<and> is_json meta \<and> (\<exists>ps. attrs = JObj ps)"
  then obtain ps where ps: "attrs = JObj ps" by blast
  from h have ja: "json_of attrs = attrs" and jm: "json_of meta = meta"
    by (simp_all add: json_of_id)
  have a: "or_else (Some attrs) (JObj []) = attrs" by (simp add: ps or_else_def)
  let ?m = "json_of (or_else (Some meta) EMPTY_META)"
  have c: "cache (saveCacheFile attrs meta f) = Json (JObj [(js ''attrs'', attrs), (js ''meta'', ?m)])"
    by (simp add: cache_saveCacheFile a ja)
  have l: "loadCacheFile (saveCacheFile attrs meta f) = (attrs, or_else (Some ?m) EMPTY_META)"
    by (rule loadCacheFile_wrapper [OF c]) (simp add: ps)
  show "fst (loadCacheFile (saveCacheFile attrs meta f)) = attrs" by (simp add: l)
  show "seen_of (snd (loadCacheFile (saveCacheFile attrs meta f))) = seen_of meta"
  proof (cases "truthy (Some meta)")
    case True
    then have "?m = meta" by (simp add: or_else_def jm)
    with True show ?thesis by (simp add: l or_else_def)
  next
    case False
    then have "?m = EMPTY_META"
      by (simp add: or_else_def json_of_id is_json_EMPTY_META)
    moreover have "truthy (Some EMPTY_META)" by (simp add: EMPTY_META_def)
    ultimately show ?thesis
      using False by (simp add: l or_else_def seen_of_falsy seen_of_EMPTY_META)
  qed
qed

theorem C9_cache_roundtrip_witness:
  "cache (saveCacheFile
       (JObj [(js ''a/update/x.xml'', JObj [(js ''login'', JStr (js ''bob'')), (js ''__seen'', JBool True)])])
       (JObj [(js ''seen'', JObj [(js ''a/update/x.xml'', JBool True)]), (js ''lastRun'', JStr (js ''t''))])
       \<lparr>readme = None, backup = None, cache = NoFile\<rparr>)
   = Json (JObj
       [(js ''attrs'', JObj [(js ''a/update/x.xml'', JObj [(js ''login'', JStr (js ''bob'')), (js ''__seen'', JBool True)])]),
        (js ''meta'', JObj [(js ''seen'', JObj [(js ''a/update/x.xml'', JBool True)]), (js ''lastRun'', JStr (js ''t''))])]) \<and>
   fst (loadCacheFile (saveCacheFile
       (JObj [(js ''a/update/x.xml'', JObj [(js ''login'', JStr (js ''bob'')), (js ''__seen'', JBool True)])])
       (JObj [(js ''seen'', JObj [(js ''a/update/x.xml'', JBool True)]), (js ''lastRun'', JStr (js ''t''))])
       \<lparr>readme = None, backup = None, cache = NoFile\<rparr>))
   = JObj [(js ''a/update/x.xml'', JObj [(js ''login'', JStr (js ''bob'')), (js ''__seen'', JBool True)])] \<and>
   seen_of (snd (loadCacheFile (saveCacheFile
       (JObj [(js ''a/update/x.xml'', JObj [(js ''login'', JStr (js ''bob'')), (js ''__seen'', JBool True)])])
       (JObj [(js ''seen'', JObj [(js ''a/update/x.xml'', JBool True)]), (js ''lastRun'', JStr (js ''t''))])
       \<lparr>readme = None, backup = None, cache = NoFile\<rparr>)))
   = JObj [(js ''a/update/x.xml'', JBool True)]"
  using C9_cache_roundtrip
    [of "JObj [(js ''a/update/x.xml'', JObj [(js ''login'', JStr (js ''bob'')), (js ''__seen'', JBool True)])]"
        "JObj [(js ''seen'', JObj [(js ''a/update/x.xml'', JBool True)]), (js ''lastRun'', JStr (js ''t''))]"
        "\<lparr>readme = None, backup = None, cache = NoFile\<rparr>"]
  by (simp add: saveCacheFile_def seen_of_def or_else_def js_def)

section \<open>A creation time that is not a date\<close>

lemma then_do_Inl [simp]: "then_do (Inl x) k = Inl x"
  by (simp add: then_do_def)

lemma then_do_Inr [simp]: "then_do (Inr v) k = k v"
  by (simp add: then_do_def)

lemma then_do_error: "(\<And>v. \<exists>x. k v = Inl x) \<Longrightarrow> \<exists>x. then_do r k = Inl x"
  by (cases r) auto

lemma date_cell_invalid: "date_cell (Some (Date None)) = Inl RangeError"
  by (simp add: date_cell_def toISOString_def)

lemma bt_step_invalid_date:
  assumes "created_dt it = Some (Date None)"
  shows "\<exists>x. bt_step e it st = Inl x"
  unfolding bt_step_def Let_def
  by (intro then_do_error) (auto simp: assms date_cell_invalid split: prod.splits)

lemma buildTable_invalid_date:
  assumes "created_dt it = Some (Date None)"
  shows "\<exists>x. buildTable e (it # its) f = (Inl x, f)"
proof -
  from bt_step_invalid_date [OF assms] obtain x where "bt_step e it (start_state f) = Inl x"
    by blast
  then show ?thesis by (simp add: buildTable_def case_prod_beta)
qed

lemma sort_items_single: "sort_items [x] = [x]"
  by (simp add: sort_items_def js_sort_def)

lemma parsed_items_single:
  assumes "glob_files e = [p]" and "parseXmlFile e p = Some it"
  shows "parsed_items e = [it]"
  using assms by (simp add: parsed_items_def sort_items_single)

lemma trim_Alpha: "trim (js ''Alpha'') = js ''Alpha''"
  by code_simp

lemma trim_bad_date: "trim (js ''2025-13-45 10:00:00'') = js ''2025-13-45 10:00:00''"
  by code_simp

lemma Date_parse_bad_date:
  "Date_parse fb (replace_first_space (js ''2025-13-45 10:00:00'') @ js ''Z'') = None"
  by code_simp

lemma friendlyFocus_empty: "friendlyFocus [] = EM_DASH"
  by (simp add: friendlyFocus_def)

lemma parse_bad_date:
  assumes "xml_of e p = bad_date_xml p"
  shows "parseXmlFile e p =
     Some \<lparr>project_name = js ''Alpha'', focus_area = EM_DASH, description = EM_DASH,
            impact = EM_DASH, created_dt = Some (Date None),
            created_raw = js ''2025-13-45 10:00:00'', path = p\<rparr>"
proof -
  let ?n = "Some (XNode [(js ''project_name'', js ''Alpha''),
                         (js ''sys_created_on'', js ''2025-13-45 10:00:00'')])"
  have k: "js ''sys_created_on'' \<noteq> js ''project_name''" "js ''focus_area'' \<noteq> js ''project_name''"
    "js ''focus_area'' \<noteq> js ''sys_created_on''" "js ''description'' \<noteq> js ''project_name''"
    "js ''description'' \<noteq> js ''sys_created_on''" "js ''short_description'' \<noteq> js ''project_name''"
    "js ''short_description'' \<noteq> js ''sys_created_on''" "js ''impact_statement'' \<noteq> js ''project_name''"
    "js ''impact_statement'' \<noteq> js ''sys_created_on''"
    by (simp_all add: js_def)
  have 1: "firstText ?n (js ''project_name'') = js ''Alpha''"
    by (simp add: firstText_def trim_Alpha)
  have 2: "firstText ?n (js ''sys_created_on'') = js ''2025-13-45 10:00:00''"
    by (simp add: firstText_def trim_bad_date k)
  have 3: "firstText ?n (js ''focus_area'') = []" "firstText ?n (js ''description'') = []"
    "firstText ?n (js ''short_description'') = []" "firstText ?n (js ''impact_statement'') = []"
    by (simp_all add: firstText_def k)
  have ne: "js ''Alpha'' \<noteq> []" "js ''2025-13-45 10:00:00'' \<noteq> []"
    by (simp_all add: js_def)
  show ?thesis
    unfolding parseXmlFile_def assms bad_date_xml_def proposal_def
    by (simp add: 1 2 3 ne Let_def friendlyFocus_empty str_or_def new_Date_def Date_parse_bad_date)
qed

text \<open>
  Claim C3, at an input where the code departs from it. For a \<open>sys_created_on\<close> that
  is present and is not a date (month 13, day 45), \<open>parseXmlFile\<close> succeeds, yet the
  record's \<open>created_dt\<close> is not \<open>null\<close>: it is an Invalid Date object. The
  renderer takes it for a date, \<open>toISOString\<close> throws, and the run of which this is
  the only record file ends with exit code 1 and has written nothing.
\<close>

theorem C3_invalid_created_on_aborts_run:
  assumes "glob_files e = [p]" and "xml_of e p = bad_date_xml p"
  shows "\<exists>it. parseXmlFile e p = Some it \<and> created_dt it = Some (Date None) \<and>
              created_dt it \<noteq> None \<and> out_exit (main e f) = 1 \<and> out_fs (main e f) = f"
proof -
  let ?it = "\<lparr>project_name = js ''Alpha'', focus_area = EM_DASH, description = EM_DASH,
            impact = EM_DASH, created_dt = Some (Date None),
            created_raw = js ''2025-13-45 10:00:00'', path = p\<rparr>"
  have p: "parseXmlFile e p = Some ?it" by (rule parse_bad_date [OF assms(2)])
  have items: "parsed_items e = [?it]" by (rule parsed_items_single [OF assms(1) p])
  obtain x where "buildTable e [?it] f = (Inl x, f)"
    using buildTable_invalid_date [of ?it e "[]" f] by auto
  then have "out_exit (main e f) = 1 \<and> out_fs (main e f) = f"
    by (simp add: main_def items)
  with p show ?thesis by simp
qed

theorem C3_invalid_created_on_aborts_run_witness:
  "glob_files (sample_env False [FILE_1] bad_date_xml) = [FILE_1] \<and>
   xml_of (sample_env False [FILE_1] bad_date_xml) FILE_1 = bad_date_xml FILE_1 \<and>
   (\<exists>it. parseXmlFile (sample_env False [FILE_1] bad_date_xml) FILE_1 = Some it \<and>
         created_dt it = Some (Date None) \<and> created_dt it \<noteq> None \<and>
         out_exit (main (sample_env False [FILE_1] bad_date_xml) no_files) = 1 \<and>
         out_fs (main (sample_env False [FILE_1] bad_date_xml) no_files) = no_files)"
proof -
  have 1: "glob_files (sample_env False [FILE_1] bad_date_xml) = [FILE_1]"
    by (simp add: sample_env_def)
  have 2: "xml_of (sample_env False [FILE_1] bad_date_xml) FILE_1 = bad_date_xml FILE_1"
    by (simp add: sample_env_def)
  from C3_invalid_created_on_aborts_run [OF 1 2, of no_files] 1 2 show ?thesis by blast
qed

section \<open>What a run writes\<close>

lemma saveCacheFile_keeps_documents:
  "readme (saveCacheFile a m f) = readme f" "backup (saveCacheFile a m f) = backup f"
  by (simp_all add: saveCacheFile_def)

lemma buildTable_keeps_documents:
  "readme (snd (buildTable e items f)) = readme f"
  "backup (snd (buildTable e items f)) = backup f"
  by (simp_all add: buildTable_def case_prod_beta Let_def saveCacheFile_keeps_documents
      split: sum.splits)

lemma buildTable_cache:
  assumes "items \<noteq> []" and "buildTable e items f = (Inr md, f1)"
  shows "\<exists>attrs seen. cache f1 =
           Json (JObj [(js ''attrs'', attrs),
                       (js ''meta'', JObj [(js ''seen'', seen), (js ''lastRun'', JStr (now_iso e))])])"
  using assms
  by (auto simp: buildTable_def case_prod_beta Let_def saveCacheFile_def or_else_def
      split: sum.splits)

lemma write_back_cache: "cache (fst (write_back e f block)) = cache f"
  by (simp add: write_back_def Let_def)

lemma write_back_dry_run:
  assumes "DRY_RUN e"
  shows "fst (write_back e f block) = f"
    and "replaceBetweenMarkers (readReadme f) block \<in> set (snd (write_back e f block))"
  using assms by (simp_all add: write_back_def Let_def)

lemma write_back_unchanged:
  assumes "replaceBetweenMarkers (readReadme f) block = readReadme f"
  shows "readme (fst (write_back e f block)) = readme f"
    and "backup (fst (write_back e f block)) = (if DRY_RUN e \<or> readme f = None then backup f else readme f)"
  using assms by (simp_all add: write_back_def Let_def)

text \<open>
  In a dry run the document and its backup are left as they are, and the computed
  document is among the lines printed.
\<close>

lemma dry_run_keeps_documents:
  assumes "DRY_RUN e"
  shows "readme (out_fs (main e f)) = readme f" and "backup (out_fs (main e f)) = backup f"
proof -
  obtain r f1 where b: "buildTable e (parsed_items e) f = (r, f1)" by (cases "buildTable e (parsed_items e) f")
  from buildTable_keeps_documents [of e "parsed_items e" f] b
  have k: "readme f1 = readme f" "backup f1 = backup f" by simp_all
  show "readme (out_fs (main e f)) = readme f" and "backup (out_fs (main e f)) = backup f"
    using assms b k
    by (cases r; simp add: main_def case_prod_beta write_back_dry_run(1))+
qed

lemma dry_run_prints_document:
  assumes "DRY_RUN e" and "buildTable e (parsed_items e) f = (Inr md, f1)"
  shows "replaceBetweenMarkers (readReadme f) (block_of e md) \<in> set (out_stdout (main e f))"
proof -
  from buildTable_keeps_documents(1) [of e "parsed_items e" f] assms(2)
  have "readReadme f1 = readReadme f" by (simp add: readReadme_def)
  with write_back_dry_run(2) [OF assms(1), of f1 "block_of e md"] assms(2)
  show ?thesis by (simp add: main_def case_prod_beta)
qed

text \<open>
  Claim C1, where the code departs from it. \<open>buildTable\<close> saves the cache whatever the
  mode: every dry run that has at least one record and completes leaves a cache file
  rewritten, with the time of this run as \<open>lastRun\<close>. (The preview message of the same
  run says that no changes were written.)
\<close>

theorem C1_dry_run_writes_cache:
  assumes "DRY_RUN e" and "parsed_items e \<noteq> []" and "out_exit (main e f) = 0"
  shows "\<exists>attrs seen. cache (out_fs (main e f)) =
           Json (JObj [(js ''attrs'', attrs),
                       (js ''meta'', JObj [(js ''seen'', seen), (js ''lastRun'', JStr (now_iso e))])])"
proof -
  obtain r f1 where b: "buildTable e (parsed_items e) f = (r, f1)" by (cases "buildTable e (parsed_items e) f")
  with assms(3) obtain md where r: "r = Inr md"
    by (cases r) (simp_all add: main_def)
  from buildTable_cache [OF assms(2)] b r obtain attrs seen where
    "cache f1 = Json (JObj [(js ''attrs'', attrs),
                       (js ''meta'', JObj [(js ''seen'', seen), (js ''lastRun'', JStr (now_iso e))])])"
    by blast
  moreover have "cache (out_fs (main e f)) = cache f1"
    using b r by (simp add: main_def case_prod_beta write_back_cache)
  ultimately show ?thesis by simp
qed

lemma sample_parsed_items:
  "parsed_items (sample_env dry [FILE_1] good_xml) =
     [\<lparr>project_name = js ''Alpha'',
       focus_area = [0xD83C, 0xDF93] @ js '' Education and Youth Services'',
       description = EM_DASH, impact = EM_DASH,
       created_dt = Some (Date (Some 1761904800000)),
       created_raw = js ''2025-10-31 10:00:00'', path = FILE_1\<rparr>]"
  by code_simp

lemma sample_dry_run_exit: "out_exit (main (sample_env True [FILE_1] good_xml) no_files) = 0"
  by code_simp

theorem C1_dry_run_writes_cache_witness:
  "DRY_RUN (sample_env True [FILE_1] good_xml) \<and>
   parsed_items (sample_env True [FILE_1] good_xml) \<noteq> [] \<and>
   out_exit (main (sample_env True [FILE_1] good_xml) no_files) = 0 \<and>
   cache no_files = NoFile \<and>
   cache (out_fs (main (sample_env True [FILE_1] good_xml) no_files)) \<noteq> cache no_files"
proof -
  have 1: "DRY_RUN (sample_env True [FILE_1] good_xml)" by (simp add: sample_env_def)
  have 2: "parsed_items (sample_env True [FILE_1] good_xml) \<noteq> []"
    by (simp add: sample_parsed_items)
  note 3 = sample_dry_run_exit
  have 4: "cache no_files = NoFile" by (simp add: no_files_def)
  from C1_dry_run_writes_cache [OF 1 2 3] 1 2 3 4 show ?thesis by auto
qed


section \<open>A document that does not change\<close>

lemma swapped_no_change:
  "replaceBetweenMarkers (js ''<!-- ideas:end -->x<!-- ideas:start -->'') block =
     js ''<!-- ideas:end -->x<!-- ideas:start -->''"
proof (rule replaceBetweenMarkers_unmatched)
  show "js_includes (js ''<!-- ideas:end -->x<!-- ideas:start -->'') MARKER_START" by code_simp
  show "js_includes (js ''<!-- ideas:end -->x<!-- ideas:start -->'') MARKER_END" by code_simp
  show "match_markers (js ''<!-- ideas:end -->x<!-- ideas:start -->'') = None" by code_simp
qed

lemma no_records_table:
  "buildTable (sample_env dry [] xml) (parsed_items (sample_env dry [] xml)) f = (Inr NO_IDEAS, f)"
  by (simp add: buildTable_def parsed_items_def sample_env_def sort_items_def js_sort_def)

text \<open>
  Claim C5 as stated, refuted. A run that is not a dry run finds a document that the
  injection leaves as it is; the document is not written, but the backup file, which held
  an older text, is overwritten: the copy is made before the new document is computed.
\<close>

theorem C5_backup_is_written_counterexample:
  "replaceBetweenMarkers (readReadme swapped_files)
     (block_of (sample_env False [] good_xml) NO_IDEAS) = readReadme swapped_files \<and>
   readme (out_fs (main (sample_env False [] good_xml) swapped_files)) = readme swapped_files \<and>
   backup (out_fs (main (sample_env False [] good_xml) swapped_files)) \<noteq> backup swapped_files"
proof -
  have d: "readReadme swapped_files = js ''<!-- ideas:end -->x<!-- ideas:start -->''"
    by (simp add: readReadme_def swapped_files_def)
  have n: "\<not> DRY_RUN (sample_env False [] good_xml)" by (simp add: sample_env_def)
  have w: "replaceBetweenMarkers (readReadme swapped_files)
     (block_of (sample_env False [] good_xml) NO_IDEAS) = readReadme swapped_files"
    by (simp add: d swapped_no_change)
  have "backup (out_fs (main (sample_env False [] good_xml) swapped_files)) =
          readme swapped_files"
    using n by (simp add: main_def no_records_table case_prod_beta write_back_unchanged [OF w]
        swapped_files_def [THEN arg_cong [of _ _ readme]])
  moreover have "readme (out_fs (main (sample_env False [] good_xml) swapped_files)) =
      readme swapped_files"
    by (simp add: main_def no_records_table case_prod_beta write_back_unchanged [OF w])
  moreover have "backup swapped_files = Some (js ''old'')"
    and "readme swapped_files = Some (js ''<!-- ideas:end -->x<!-- ideas:start -->'')"
    by (simp_all add: swapped_files_def)
  moreover have "js ''<!-- ideas:end -->x<!-- ideas:start -->'' \<noteq> js ''old''"
    by (simp add: js_def)
  ultimately show ?thesis using w by simp
qed

text \<open>
  Claim C5, amended. If the computed document is identical to the existing one, the run
  does not write \<open>README.md\<close>. The backup step is not skipped: in a run that is not a dry
  run and finds a \<open>README.md\<close>, \<open>README_backup.md\<close> becomes a copy of it; only a dry
  run leaves the backup as it was.
\<close>

theorem C5_unchanged_document_not_written:
  assumes "buildTable e (parsed_items e) f = (Inr tableMd, f1)"
    and "replaceBetweenMarkers (readReadme f) (block_of e tableMd) = readReadme f"
  shows "readme (out_fs (main e f)) = readme f \<and>
         backup (out_fs (main e f)) =
           (if DRY_RUN e \<or> readme f = None then backup f else readme f)"
proof -
  from buildTable_keeps_documents [of e "parsed_items e" f] assms(1)
  have k: "readme f1 = readme f" "backup f1 = backup f" by simp_all
  then have "readReadme f1 = readReadme f" by (simp add: readReadme_def)
  with assms(2) have w: "replaceBetweenMarkers (readReadme f1) (block_of e tableMd) = readReadme f1"
    by simp
  show ?thesis
    using assms(1) k by (simp add: main_def case_prod_beta write_back_unchanged [OF w])
qed

theorem C5_unchanged_document_not_written_witness:
  "buildTable (sample_env False [] good_xml) (parsed_items (sample_env False [] good_xml))
     swapped_files = (Inr NO_IDEAS, swapped_files) \<and>
   replaceBetweenMarkers (readReadme swapped_files)
     (block_of (sample_env False [] good_xml) NO_IDEAS) = readReadme swapped_files \<and>
   readme (out_fs (main (sample_env False [] good_xml) swapped_files)) =
     Some (js ''<!-- ideas:end -->x<!-- ideas:start -->'') \<and>
   backup (out_fs (main (sample_env False [] good_xml) swapped_files)) =
     Some (js ''<!-- ideas:end -->x<!-- ideas:start -->'')"
proof -
  have d: "readReadme swapped_files = js ''<!-- ideas:end -->x<!-- ideas:start -->''"
    by (simp add: readReadme_def swapped_files_def)
  have w: "replaceBetweenMarkers (readReadme swapped_files)
     (block_of (sample_env False [] good_xml) NO_IDEAS) = readReadme swapped_files"
    by (simp add: d swapped_no_change)
  have r: "readme (out_fs (main (sample_env False [] good_xml) swapped_files)) =
             readme swapped_files \<and>
           backup (out_fs (main (sample_env False [] good_xml) swapped_files)) =
             (if DRY_RUN (sample_env False [] good_xml) \<or> readme swapped_files = None
              then backup swapped_files else readme swapped_files)"
    by (rule C5_unchanged_document_not_written [OF no_records_table w])
  have v: "DRY_RUN (sample_env False [] good_xml) = False"
    "readme swapped_files = Some (js ''<!-- ideas:end -->x<!-- ideas:start -->'')"
    by (simp_all add: sample_env_def swapped_files_def)
  show ?thesis using r no_records_table w by (simp add: v)
qed

section \<open>The loop of the renderer\<close>









lemma cached_login_other:
  "get_prop attrs' q = get_prop attrs q \<Longrightarrow> cached_login attrs' q = cached_login attrs q"
  by (simp add: cached_login_def)






lemma wasSeen_cong:
  "get_prop a k = get_prop b k \<Longrightarrow> get_prop s k = get_prop t k \<Longrightarrow>
   wasSeen a s k = wasSeen b t k"
  by (simp add: wasSeen_def)









section \<open>The cache from one run to the next\<close>






















section \<open>New submissions\<close>















section \<open>The sort and the date range\<close>

lemma insert_by_set: "set (insert_by lt x ys) = insert x (set ys)"
  by (induction ys) auto

lemma insert_by_length: "length (insert_by lt x ys) = Suc (length ys)"
  by (induction ys) auto

lemma foldl_insert_by_set:
  "set (foldl (\<lambda>acc x. insert_by lt x acc) acc xs) = set acc \<union> set xs"
  by (induction xs arbitrary: acc) (auto simp: insert_by_set)

lemma foldl_insert_by_length:
  "length (foldl (\<lambda>acc x. insert_by lt x acc) acc xs) = length acc + length xs"
  by (induction xs arbitrary: acc) (auto simp: insert_by_length)

lemma js_sort_set: "set (js_sort lt xs) = set xs"
  by (simp add: js_sort_def foldl_insert_by_set)

lemma js_sort_length: "length (js_sort lt xs) = length xs"
  by (simp add: js_sort_def foldl_insert_by_length)

lemma lt_time_key:
  assumes "created_dt a \<noteq> Some (Date None)" and "created_dt b \<noteq> Some (Date None)"
  shows "diff_negative (time_num b) (time_num a) \<longleftrightarrow> time_key b < time_key a"
proof -
  have k: "(time_num x = NegInf \<and> time_key x = None) \<or>
           (\<exists>t. time_num x = Fin t \<and> time_key x = Some t)"
    if "created_dt x \<noteq> Some (Date None)" for x
  proof (cases "created_dt x")
    case None
    then show ?thesis by (simp add: time_num_def time_key_def)
  next
    case (Some d)
    with that obtain t where "d = Date (Some t)" by (cases d) auto
    with Some show ?thesis by (simp add: time_num_def time_key_def)
  qed
  from k [OF assms(1)] k [OF assms(2)] show ?thesis by auto
qed

text \<open>Among records without an Invalid Date the comparator of \<open>main\<close> is the
  descending order of the keys, and the sort puts the records in that order.\<close>

lemma insert_by_sorted:
  assumes "sorted_wrt (\<lambda>a b. time_key b \<le> time_key a) ys"
    and "\<forall>y \<in> set (x # ys). created_dt y \<noteq> Some (Date None)"
  shows "sorted_wrt (\<lambda>a b. time_key b \<le> time_key a)
           (insert_by (\<lambda>a b. diff_negative (time_num b) (time_num a)) x ys)"
  using assms
proof (induction ys)
  case Nil
  then show ?case by simp
next
  case (Cons y ys)
  from Cons.prems(2) have lt: "diff_negative (time_num y) (time_num x) \<longleftrightarrow> time_key y < time_key x"
    by (intro lt_time_key) simp_all
  show ?case
  proof (cases "time_key y < time_key x")
    case True
    with Cons.prems(1) lt show ?thesis by (auto intro: order_trans less_imp_le)
  next
    case False
    then have le: "time_key x \<le> time_key y" by simp
    from Cons.prems have "sorted_wrt (\<lambda>a b. time_key b \<le> time_key a)
           (insert_by (\<lambda>a b. diff_negative (time_num b) (time_num a)) x ys)"
      by (intro Cons.IH) simp_all
    with Cons.prems(1) False lt le show ?thesis by (auto simp: insert_by_set)
  qed
qed

lemma foldl_insert_by_sorted:
  assumes "sorted_wrt (\<lambda>a b. time_key b \<le> time_key a) acc"
    and "\<forall>y \<in> set acc \<union> set xs. created_dt y \<noteq> Some (Date None)"
  shows "sorted_wrt (\<lambda>a b. time_key b \<le> time_key a)
           (foldl (\<lambda>acc x. insert_by (\<lambda>a b. diff_negative (time_num b) (time_num a)) x acc) acc xs)"
  using assms
proof (induction xs arbitrary: acc)
  case Nil
  then show ?case by simp
next
  case (Cons x xs)
  have "sorted_wrt (\<lambda>a b. time_key b \<le> time_key a)
          (insert_by (\<lambda>a b. diff_negative (time_num b) (time_num a)) x acc)"
    using Cons.prems by (intro insert_by_sorted) simp_all
  moreover have "\<forall>y \<in> set (insert_by (\<lambda>a b. diff_negative (time_num b) (time_num a)) x acc) \<union> set xs.
                   created_dt y \<noteq> Some (Date None)"
    using Cons.prems(2) by (auto simp: insert_by_set)
  ultimately show ?case using Cons.IH by simp
qed

lemma sort_items_sorted:
  assumes "\<forall>y \<in> set xs. created_dt y \<noteq> Some (Date None)"
  shows "sorted_wrt (\<lambda>a b. time_key b \<le> time_key a) (sort_items xs)"
  unfolding sort_items_def js_sort_def
  using assms by (intro foldl_insert_by_sorted) simp_all

lemma sort_items_set: "set (sort_items xs) = set xs"
  by (simp add: sort_items_def js_sort_set)

lemma sort_items_length: "length (sort_items xs) = length xs"
  by (simp add: sort_items_def js_sort_length)

lemma sorted_ends:
  assumes "sorted_wrt (\<lambda>a b. time_key b \<le> time_key a) s" and "x \<in> set s"
  shows "time_key x \<le> time_key (hd s)" and "time_key (last s) \<le> time_key x"
proof -
  from assms(2) obtain i where i: "i < length s" "s ! i = x" by (auto simp: in_set_conv_nth)
  then have ne: "s \<noteq> []" by auto
  show "time_key x \<le> time_key (hd s)"
  proof (cases "i = 0")
    case True
    with i ne show ?thesis by (simp add: hd_conv_nth)
  next
    case False
    with i assms(1) have "time_key (s ! i) \<le> time_key (s ! 0)"
      by (intro sorted_wrt_nth_less [of "\<lambda>a b. time_key b \<le> time_key a" s 0 i]) simp_all
    with i ne show ?thesis by (simp add: hd_conv_nth)
  qed
  show "time_key (last s) \<le> time_key x"
  proof (cases "i = length s - 1")
    case True
    with i ne show ?thesis by (simp add: last_conv_nth)
  next
    case False
    with i assms(1) have "time_key (s ! (length s - 1)) \<le> time_key (s ! i)"
      by (intro sorted_wrt_nth_less [of "\<lambda>a b. time_key b \<le> time_key a" s i "length s - 1"]) auto
    with i ne show ?thesis by (simp add: last_conv_nth)
  qed
qed

lemma known_times_set: "set (known_times xs) = {t. \<exists>it \<in> set xs. time_key it = Some t}"
  by (induction xs)
     (auto simp: known_times_def time_key_def split: option.splits jsdate.splits)

lemma date_cell_key:
  assumes "created_dt it \<noteq> Some (Date None)"
  shows "date_cell (created_dt it) =
           Inr (case time_key it of None \<Rightarrow> EM_DASH | Some t \<Rightarrow> date_text t)"
proof (cases "created_dt it")
  case None
  then show ?thesis by (simp add: date_cell_def time_key_def)
next
  case (Some d)
  with assms obtain t where "d = Date (Some t)" by (cases d) auto
  with Some show ?thesis
    by (simp add: date_cell_def time_key_def date_text_def toISOString_def Let_def
        case_prod_beta)
qed

lemma undated_key: "created_dt it = None \<Longrightarrow> time_key it = None"
  by (simp add: time_key_def)

lemma dated_key:
  "created_dt it \<noteq> None \<Longrightarrow> created_dt it \<noteq> Some (Date None) \<Longrightarrow> \<exists>t. time_key it = Some t"
  by (cases "created_dt it") (auto simp: time_key_def split: jsdate.splits)

text \<open>
  Claim C6 as stated, refuted. Of two records the first has a creation time and the
  second has none. The record without a time sorts last, the range takes its oldest end
  from the last record, and the summary shows the placeholder there; the minimum over the
  records with a known timestamp is the date of the first record.
\<close>

theorem C6_undated_record_blanks_oldest_counterexample:
  "date_range (parsed_items (sample_env False [FILE_1, FILE_2] mixed_xml)) =
     Inr (EM_DASH, js ''2025-10-31'') \<and>
   spec_date_range (parsed_items (sample_env False [FILE_1, FILE_2] mixed_xml)) =
     (js ''2025-10-31'', js ''2025-10-31'') \<and>
   date_range (parsed_items (sample_env False [FILE_1, FILE_2] mixed_xml)) \<noteq>
     Inr (spec_date_range (parsed_items (sample_env False [FILE_1, FILE_2] mixed_xml)))"
  by code_simp

text \<open>
  Claim C6, amended. For records of which none holds an Invalid Date, sorted as
  \<open>main\<close> sorts them: the newest date of the range is the maximum creation date over
  the records with a known timestamp, the placeholder when there is none; the oldest date
  is the minimum creation date over them when every record has a timestamp, and the
  placeholder as soon as one record has none. The total counts every record.
\<close>

theorem C6_date_range_of_sorted_records:
  assumes "xs \<noteq> []" and "\<forall>it \<in> set xs. created_dt it \<noteq> Some (Date None)"
  shows "date_range (sort_items xs) =
           Inr (if \<exists>it \<in> set xs. created_dt it = None then EM_DASH
                else date_text (Min (set (known_times xs))),
                if known_times xs = [] then EM_DASH
                else date_text (Max (set (known_times xs)))) \<and>
         hd (summaryLines (sort_items xs) st oldest newest) =
           js ''**Total Ideas:** '' @ show_nat (length xs)"
proof -
  let ?s = "sort_items xs"
  have ne: "?s \<noteq> []" using assms(1) sort_items_length [of xs] by auto
  have srt: "sorted_wrt (\<lambda>a b. time_key b \<le> time_key a) ?s"
    by (rule sort_items_sorted [OF assms(2)])
  have hd_in: "hd ?s \<in> set xs" and last_in: "last ?s \<in> set xs"
    using ne sort_items_set [of xs] hd_in_set [OF ne] last_in_set [OF ne] by auto
  have top: "time_key x \<le> time_key (hd ?s)" and bot: "time_key (last ?s) \<le> time_key x"
    if "x \<in> set xs" for x
    using sorted_ends [OF srt, of x] that by (simp_all add: sort_items_set)
  have newest: "date_cell (created_dt (hd ?s)) =
      Inr (if known_times xs = [] then EM_DASH else date_text (Max (set (known_times xs))))"
  proof (cases "known_times xs = []")
    case True
    then have "time_key (hd ?s) = None"
      using known_times_set [of xs] hd_in by (cases "time_key (hd ?s)") auto
    with True hd_in assms(2) show ?thesis by (simp add: date_cell_key)
  next
    case False
    then obtain t where "t \<in> set (known_times xs)" by (cases "known_times xs") auto
    then obtain it where it: "it \<in> set xs" "time_key it = Some t"
      by (auto simp: known_times_set)
    with top [of it] obtain m where m: "time_key (hd ?s) = Some m"
      by (cases "time_key (hd ?s)") auto
    have "Max (set (known_times xs)) = m"
    proof (rule Max_eqI)
      show "finite (set (known_times xs))" by simp
      show "m \<in> set (known_times xs)" using m hd_in by (auto simp: known_times_set)
      fix y assume "y \<in> set (known_times xs)"
      then obtain z where "z \<in> set xs" "time_key z = Some y" by (auto simp: known_times_set)
      with top [of z] m show "y \<le> m" by simp
    qed
    with False m hd_in assms(2) show ?thesis by (simp add: date_cell_key)
  qed
  have oldest: "date_cell (created_dt (last ?s)) =
      Inr (if \<exists>it \<in> set xs. created_dt it = None then EM_DASH
           else date_text (Min (set (known_times xs))))"
  proof (cases "\<exists>it \<in> set xs. created_dt it = None")
    case True
    then obtain it where "it \<in> set xs" "time_key it = None" by (auto dest: undated_key)
    with bot [of it] have "time_key (last ?s) = None"
      by (cases "time_key (last ?s)") simp_all
    with True last_in assms(2) show ?thesis by (simp add: date_cell_key)
  next
    case False
    with last_in assms(2) obtain m where m: "time_key (last ?s) = Some m"
      using dated_key [of "last ?s"] by auto
    have "Min (set (known_times xs)) = m"
    proof (rule Min_eqI)
      show "finite (set (known_times xs))" by simp
      show "m \<in> set (known_times xs)" using m last_in by (auto simp: known_times_set)
      fix y assume "y \<in> set (known_times xs)"
      then obtain z where "z \<in> set xs" "time_key z = Some y" by (auto simp: known_times_set)
      with bot [of z] m show "m \<le> y" by simp
    qed
    moreover have "date_cell (created_dt (last ?s)) = Inr (date_text m)"
      using m last_in assms(2) by (simp add: date_cell_key)
    moreover from False have "(\<exists>it \<in> set xs. created_dt it = None) = False" by simp
    ultimately show ?thesis by (simp only: if_False)
  qed
  show ?thesis
    by (simp add: date_range_def newest oldest summaryLines_def sort_items_length)
qed

lemma sample_mixed_records:
  "List.map_filter (parseXmlFile (sample_env False [FILE_1, FILE_2] mixed_xml)) [FILE_1, FILE_2] =
     [\<lparr>project_name = js ''Alpha'',
       focus_area = [0xD83C, 0xDF93] @ js '' Education and Youth Services'',
       description = EM_DASH, impact = EM_DASH,
       created_dt = Some (Date (Some 1761904800000)),
       created_raw = js ''2025-10-31 10:00:00'', path = FILE_1\<rparr>,
      \<lparr>project_name = js ''Beta'', focus_area = EM_DASH,
       description = EM_DASH, impact = EM_DASH,
       created_dt = None, created_raw = [], path = FILE_2\<rparr>]"
  by code_simp

lemma sample_date_text: "date_text 1761904800000 = js ''2025-10-31''"
  by code_simp

theorem C6_date_range_of_sorted_records_witness:
  "List.map_filter (parseXmlFile (sample_env False [FILE_1, FILE_2] mixed_xml)) [FILE_1, FILE_2] \<noteq> [] \<and>
   map created_dt
     (List.map_filter (parseXmlFile (sample_env False [FILE_1, FILE_2] mixed_xml))
        [FILE_1, FILE_2]) = [Some (Date (Some 1761904800000)), None] \<and>
   date_range (sort_items
     (List.map_filter (parseXmlFile (sample_env False [FILE_1, FILE_2] mixed_xml))
        [FILE_1, FILE_2])) = Inr (EM_DASH, js ''2025-10-31'') \<and>
   hd (summaryLines (sort_items
     (List.map_filter (parseXmlFile (sample_env False [FILE_1, FILE_2] mixed_xml))
        [FILE_1, FILE_2])) (start_state no_files) EM_DASH (js ''2025-10-31'')) =
     js ''**Total Ideas:** 2''"
proof -
  let ?xs = "List.map_filter (parseXmlFile (sample_env False [FILE_1, FILE_2] mixed_xml))
               [FILE_1, FILE_2]"
  have 1: "?xs \<noteq> []" unfolding sample_mixed_records by simp
  have 2: "\<forall>it \<in> set ?xs. created_dt it \<noteq> Some (Date None)"
    unfolding sample_mixed_records by simp
  have k: "known_times ?xs = [1761904800000]"
    unfolding sample_mixed_records by (simp add: known_times_def)
  have u: "\<exists>it \<in> set ?xs. created_dt it = None" unfolding sample_mixed_records by simp
  have n: "show_nat (length ?xs) = js ''2''"
    unfolding sample_mixed_records by (simp add: show_nat_def digit_cu_def js_def)
  have "date_range (sort_items ?xs) = Inr (EM_DASH, js ''2025-10-31'') \<and>
        hd (summaryLines (sort_items ?xs) (start_state no_files) EM_DASH (js ''2025-10-31'')) =
          js ''**Total Ideas:** '' @ js ''2''"
    using C6_date_range_of_sorted_records [OF 1 2, of "start_state no_files" EM_DASH "js ''2025-10-31''"] u
    by (simp only: k n sample_date_text if_True if_False list.simps simp_thms Max_singleton
        list.set)
  moreover have "js ''**Total Ideas:** '' @ js ''2'' = js ''**Total Ideas:** 2''"
    by (simp add: js_def)
  moreover have "map created_dt ?xs = [Some (Date (Some 1761904800000)), None]"
    unfolding sample_mixed_records by simp
  ultimately show ?thesis using 1 by (simp only: simp_thms)
qed


section \<open>Injecting the same block again\<close>







section \<open>The stamp keeps the region\<close>








section \<open>Two runs on the same record file\<close>




text \<open>
  A document without the delimited region, with the record already in the cache. The
  first run appends the region, with an empty line after the note and a line feed before
  the end marker; the second run replaces the region without them, so it writes a
  different document although it computes the same block.
\<close>

lemma sample_appended_run:
  "out_fs (main (sample_env False [FILE_1] good_xml) unmarked_files) =
     \<lparr>readme = Some (js ''# Ideas\<newline>'' @
                      js ''\<newline>'' @
                      js ''<!-- ideas:start -->\<newline>'' @
                      js ''\<newline>'' @
                      js ''_Updated automatically on merge to `main`._\<newline>'' @
                      js ''\<newline>'' @
                      sample_block (js ''0'') [] (js ''octocat'') @
                      js ''\<newline>'' @
                      js ''<!-- ideas:end -->\<newline>'' @
                      js ''\<newline>'' @
                      js ''\<newline>'' @
                      js ''_Last updated: Sat, 01 Nov 2025 00:00:00 GMT_\<newline>''),
      backup = readme unmarked_files,
      cache = Json (JObj
        [(js ''attrs'', JObj [(FILE_1, JObj [(js ''login'', JStr (js ''octocat'')),
                                             (js ''avatar_url'', JStr []),
                                             (js ''html_url'', JStr [])])]),
         (js ''meta'', JObj [(js ''seen'', JObj [(FILE_1, JBool True)]),
                             (js ''lastRun'', JStr (js ''2025-11-01T00:00:00.000Z''))])])\<rparr>"
  by code_simp

lemma sample_appended_second_run:
  "readme (out_fs (main (sample_env False [FILE_1] good_xml)
                     (out_fs (main (sample_env False [FILE_1] good_xml) unmarked_files)))) =
     Some (js ''# Ideas\<newline>'' @
           js ''\<newline>'' @
           js ''<!-- ideas:start -->\<newline>'' @
           js ''\<newline>'' @
           js ''_Updated automatically on merge to `main`._\<newline>'' @
           sample_block (js ''0'') [] (js ''octocat'') @
           js ''<!-- ideas:end -->\<newline>'' @
           js ''\<newline>'' @
           js ''\<newline>'' @
           js ''_Last updated: Sat, 01 Nov 2025 00:00:00 GMT_\<newline>'')"
  unfolding sample_appended_run by code_simp





section \<open>A run in which every record is in the seen set\<close>






lemma is_json_user_attr: "is_json (user_attr u)" "is_obj (user_attr u)"
  by (simp_all add: user_attr_def is_obj_def)







section \<open>The loop run again on the cache it has made\<close>







section \<open>The clock\<close>











section \<open>The second run when every record is in the seen set\<close>







end
